theory Spec2Isabelle
  imports Complex_Main "HOL-Library.Word" "HOL-Library.Sublist"
begin

unbundle bit_operations_syntax

section \<open>Common: errors and loops\<close>

text \<open>
  \<open>DeadlyImportError\<close> is the exception of the importers (it aborts the import).
  \<open>InvalidAccess\<close> stands for every read or write the C++ source performs outside an
  array or through a null pointer (undefined behaviour in C++): the model stops there.
\<close>

datatype error = DeadlyImportError string | InvalidAccess

definition ebind :: "error + 'a \<Rightarrow> ('a \<Rightarrow> error + 'b) \<Rightarrow> error + 'b" where
  "ebind m f = (case m of Inl e \<Rightarrow> Inl e | Inr x \<Rightarrow> f x)"

text \<open>Arithmetic of \<open>unsigned int\<close>: the value modulo \<open>2 ^ 32\<close>.\<close>

definition u32 :: "int \<Rightarrow> nat" where
  "u32 i = nat (i mod 2 ^ 32)"

text \<open>
  \<open>for (unsigned i = i0; i < n; i += step) body\<close>; \<open>step\<close> is one of the literals
  1, 2, 3 of the source. The body may fail, which ends the loop.
\<close>

function for_range :: "nat \<Rightarrow> nat \<Rightarrow> nat \<Rightarrow> (nat \<Rightarrow> 's \<Rightarrow> error + 's) \<Rightarrow> 's \<Rightarrow> error + 's" where
  "for_range i n step body s =
     (if i < n \<and> 0 < step
      then (case body i s of Inl e \<Rightarrow> Inl e | Inr s' \<Rightarrow> for_range (i + step) n step body s')
      else Inr s)"
  by pat_completeness auto
termination
  by (relation "measure (\<lambda>(i, n, step, body, s). n - i)") auto

declare for_range.simps [simp del]

section \<open>glTF importer: face synthesis (glTFImporter.cpp, ImportMeshes)\<close>

datatype PrimitiveMode =
    PrimitiveMode_POINTS
  | PrimitiveMode_LINES
  | PrimitiveMode_LINE_LOOP
  | PrimitiveMode_LINE_STRIP
  | PrimitiveMode_TRIANGLES
  | PrimitiveMode_TRIANGLE_STRIP
  | PrimitiveMode_TRIANGLE_FAN

text \<open>
  An \<open>aiFace\<close> is its index array \<open>mIndices[0 .. mNumIndices)\<close>. The array
  \<open>faces = new aiFace[nFaces]\<close> is a store of \<open>nFaces\<close> slots; a slot that no
  \<open>SetFace\<close> has written yet holds a default-constructed face, which has no index array
  (\<open>mIndices == nullptr\<close>): \<open>None\<close>.
\<close>

type_synonym aiFace = "nat list"

record face_array =
  nFaces :: nat
  slot :: "nat \<Rightarrow> aiFace option"

definition new_faces :: "nat \<Rightarrow> face_array" where
  "new_faces n = \<lparr> nFaces = n, slot = (\<lambda>_. None) \<rparr>"

text \<open>\<open>SetFace(faces[j], ...)\<close>: a write to slot \<open>j\<close> of the array.\<close>

definition SetFace :: "face_array \<Rightarrow> nat \<Rightarrow> aiFace \<Rightarrow> error + face_array" where
  "SetFace fs j f =
     (if j < nFaces fs then Inr (fs\<lparr> slot := (slot fs)(j \<mapsto> f) \<rparr>) else Inl InvalidAccess)"

text \<open>\<open>faces[j].mIndices[k]\<close>: a read through the index array of slot \<open>j\<close>.\<close>

definition face_index :: "face_array \<Rightarrow> nat \<Rightarrow> nat \<Rightarrow> error + nat" where
  "face_index fs j k =
     (if j < nFaces fs
      then (case slot fs j of
              None \<Rightarrow> Inl InvalidAccess
            | Some f \<Rightarrow> if k < length f then Inr (f ! k) else Inl InvalidAccess)
      else Inl InvalidAccess)"

text \<open>
  \<open>data.GetUInt(i)\<close> on the index accessor, whose \<open>count\<close> values are the list
  \<open>data\<close> (a read behind them is an invalid access); without an index accessor the
  source uses \<open>i\<close> itself.
\<close>

definition GetUInt :: "nat list \<Rightarrow> nat \<Rightarrow> error + nat" where
  "GetUInt data i = (if i < length data then Inr (data ! i) else Inl InvalidAccess)"

definition implied_index :: "nat \<Rightarrow> error + nat" where
  "implied_index i = Inr i"

definition faces_list :: "face_array \<Rightarrow> aiFace option list" where
  "faces_list fs = map (slot fs) [0..<nFaces fs]"

definition warn_LINES :: string where
  "warn_LINES = ''The number of vertices was not compatible with the LINES mode. Some vertices were dropped.''"

definition warn_TRIANGLES :: string where
  "warn_TRIANGLES = ''The number of vertices was not compatible with the TRIANGLES mode. Some vertices were dropped.''"

text \<open>
  The shared case \<open>PrimitiveMode_LINE_LOOP\<close> / \<open>PrimitiveMode_LINE_STRIP\<close> of the
  \<open>switch\<close>.
\<close>

definition line_loop_or_strip ::
  "PrimitiveMode \<Rightarrow> nat \<Rightarrow> (nat \<Rightarrow> error + nat) \<Rightarrow> error + (face_array \<times> string list)" where
  "line_loop_or_strip mode count get =
     (let n = u32 (int count - (if mode = PrimitiveMode_LINE_STRIP then 1 else 0))
      in ebind (get 0) (\<lambda>a. ebind (get 1) (\<lambda>b.
         ebind (SetFace (new_faces n) 0 [a, b]) (\<lambda>fs0.
         ebind (for_range 2 count 1
                  (\<lambda>i fs. ebind (face_index fs (i - 2) 1) (\<lambda>p.
                           ebind (get i) (\<lambda>d. SetFace fs (i - 1) [p, d])))
                  fs0) (\<lambda>fs1.
         if mode = PrimitiveMode_LINE_LOOP
         then ebind (face_index fs1 (u32 (int count - 2)) 1) (\<lambda>p.
              ebind (face_index fs1 0 0) (\<lambda>q.
              ebind (SetFace fs1 (u32 (int count - 1)) [p, q]) (\<lambda>fs2. Inr (fs2, []))))
         else Inr (fs1, []))))))"

text \<open>
  The \<open>switch (mode)\<close> of \<open>ImportMeshes\<close>. The source has it twice, once reading
  \<open>data.GetUInt(i)\<close> and once using \<open>i\<close>; \<open>get\<close> is that one difference. The result is
  the face array and the warnings logged.
\<close>

definition synth_faces ::
  "PrimitiveMode \<Rightarrow> nat \<Rightarrow> (nat \<Rightarrow> error + nat) \<Rightarrow> error + (face_array \<times> string list)" where
  "synth_faces mode count get =
     (case mode of
        PrimitiveMode_POINTS \<Rightarrow>
          ebind (for_range 0 count 1
                   (\<lambda>i fs. ebind (get i) (\<lambda>a. SetFace fs i [a]))
                   (new_faces count))
            (\<lambda>fs. Inr (fs, []))
      | PrimitiveMode_LINES \<Rightarrow>
          (let n = count div 2;
               odd_count = (n * 2 \<noteq> count);
               count' = (if odd_count then n * 2 else count)
           in ebind (for_range 0 count' 2
                       (\<lambda>i fs. ebind (get i) (\<lambda>a. ebind (get (i + 1)) (\<lambda>b.
                                  SetFace fs (i div 2) [a, b])))
                       (new_faces n))
                (\<lambda>fs. Inr (fs, if odd_count then [warn_LINES] else [])))
      | PrimitiveMode_LINE_LOOP \<Rightarrow> line_loop_or_strip mode count get
      | PrimitiveMode_LINE_STRIP \<Rightarrow> line_loop_or_strip mode count get
      | PrimitiveMode_TRIANGLES \<Rightarrow>
          (let n = count div 3;
               rest = (n * 3 \<noteq> count);
               count' = (if rest then n * 3 else count)
           in ebind (for_range 0 count' 3
                       (\<lambda>i fs. ebind (get i) (\<lambda>a. ebind (get (i + 1)) (\<lambda>b.
                                ebind (get (i + 2)) (\<lambda>c. SetFace fs (i div 3) [a, b, c]))))
                       (new_faces n))
                (\<lambda>fs. Inr (fs, if rest then [warn_TRIANGLES] else [])))
      | PrimitiveMode_TRIANGLE_STRIP \<Rightarrow>
          ebind (get 0) (\<lambda>a. ebind (get 1) (\<lambda>b. ebind (get 2) (\<lambda>c.
          ebind (SetFace (new_faces (u32 (int count - 2))) 0 [a, b, c]) (\<lambda>fs0.
          ebind (for_range 3 count 1
                   (\<lambda>i fs. ebind (face_index fs (i - 1) 1) (\<lambda>p.
                            ebind (face_index fs (i - 1) 2) (\<lambda>q.
                            ebind (get i) (\<lambda>d. SetFace fs (i - 2) [p, q, d]))))
                   fs0)
            (\<lambda>fs. Inr (fs, []))))))
      | PrimitiveMode_TRIANGLE_FAN \<Rightarrow>
          ebind (get 0) (\<lambda>a. ebind (get 1) (\<lambda>b. ebind (get 2) (\<lambda>c.
          ebind (SetFace (new_faces (u32 (int count - 2))) 0 [a, b, c]) (\<lambda>fs0.
          ebind (for_range 3 count 1
                   (\<lambda>i fs. ebind (face_index fs 0 0) (\<lambda>p.
                            ebind (face_index fs (i - 1) 2) (\<lambda>q.
                            ebind (get i) (\<lambda>d. SetFace fs (i - 2) [p, q, d]))))
                   fs0)
            (\<lambda>fs. Inr (fs, [])))))))"

section \<open>glTF importer: mesh flattening and the offset table (ImportMeshes)\<close>

text \<open>
  Modelled from the spec: \<open>ASSIMP_itoa10\<close> (StringUtils.h, not among the sources) writes
  "the decimal" rendering of an index, with a leading minus sign for a negative number.
\<close>

fun digits10 :: "nat \<Rightarrow> string" where
  "digits10 n =
     (if n < 10 then [''0123456789'' ! n]
      else digits10 (n div 10) @ [''0123456789'' ! (n mod 10)])"

declare digits10.simps [simp del]

definition itoa10 :: "int \<Rightarrow> string" where
  "itoa10 n = (if n < 0 then CHR ''-'' # digits10 (nat (- n)) else digits10 (nat n))"

text \<open>
  The parts of the asset that \<open>ImportMeshes\<close> reads. \<open>position_count\<close> is
  \<open>attr.position[0]->count\<close> where a position accessor is present; \<open>indices\<close> holds the
  values of the index accessor where the primitive has one. Vertex data (positions,
  normals, texture coordinates) is floating point payload and is left out.
\<close>

record Primitive =
  mode :: PrimitiveMode
  position_count :: "nat option"
  indices :: "nat list option"
  material :: "nat option"

text \<open>The type of a mesh extension: Open3DGC compression, or another code.\<close>

datatype EType = Compression_Open3DGC | Other_EType nat

record Mesh =
  mesh_id :: string
  primitives :: "Primitive list"
  Extension :: "EType list"

datatype aiPrimitiveType = aiPrimitiveType_POINT | aiPrimitiveType_LINE | aiPrimitiveType_TRIANGLE

record aiMesh =
  mName :: string
  mPrimitiveTypes :: aiPrimitiveType
  mNumVertices :: nat
  mFaces :: "aiFace option list"
  mMaterialIndex :: nat

fun primitive_type :: "PrimitiveMode \<Rightarrow> aiPrimitiveType" where
  "primitive_type PrimitiveMode_POINTS = aiPrimitiveType_POINT"
| "primitive_type PrimitiveMode_LINES = aiPrimitiveType_LINE"
| "primitive_type PrimitiveMode_LINE_LOOP = aiPrimitiveType_LINE"
| "primitive_type PrimitiveMode_LINE_STRIP = aiPrimitiveType_LINE"
| "primitive_type PrimitiveMode_TRIANGLES = aiPrimitiveType_TRIANGLE"
| "primitive_type PrimitiveMode_TRIANGLE_STRIP = aiPrimitiveType_TRIANGLE"
| "primitive_type PrimitiveMode_TRIANGLE_FAN = aiPrimitiveType_TRIANGLE"

text \<open>\<open>CheckValidFacesIndices\<close>: a slot never written has \<open>mNumIndices = 0\<close>.\<close>

definition CheckValidFacesIndices :: "aiFace option list \<Rightarrow> nat \<Rightarrow> bool" where
  "CheckValidFacesIndices faces nVerts =
     (\<forall>f \<in> set faces. case f of None \<Rightarrow> True | Some ixs \<Rightarrow> \<forall>idx \<in> set ixs. idx < nVerts)"

definition num_vertices :: "Primitive \<Rightarrow> nat" where
  "num_vertices prim = (case position_count prim of None \<Rightarrow> 0 | Some c \<Rightarrow> c)"

text \<open>The face synthesis of one primitive: with an index accessor, or from the vertex count.\<close>

definition primitive_faces :: "Primitive \<Rightarrow> error + (face_array \<times> string list)" where
  "primitive_faces prim =
     (case indices prim of
        Some data \<Rightarrow> synth_faces (mode prim) (length data) (GetUInt data)
      | None \<Rightarrow> synth_faces (mode prim) (num_vertices prim) implied_index)"

text \<open>
  The body of the loop over \<open>mesh.primitives\<close>, for primitive number \<open>p\<close>: the output
  mesh and the warnings logged. (With assertions compiled in, \<open>ai_assert(validRes)\<close>
  stops the program instead of warning; this is the release behaviour.)
\<close>

definition import_primitive :: "Mesh \<Rightarrow> nat \<Rightarrow> Primitive \<Rightarrow> error + (aiMesh \<times> string list)" where
  "import_primitive mesh p prim =
     ebind (primitive_faces prim) (\<lambda>(fs, ws).
       let faces = faces_list fs;
           nm = (if length (primitives mesh) > 1
                 then mesh_id mesh @ CHR ''-'' # itoa10 (int p) else mesh_id mesh)
       in Inr (\<lparr> mName = nm,
                 mPrimitiveTypes = primitive_type (mode prim),
                 mNumVertices = num_vertices prim,
                 mFaces = faces,
                 mMaterialIndex = (case material prim of None \<Rightarrow> 0 | Some i \<Rightarrow> i) \<rparr>,
               ws @ (if CheckValidFacesIndices faces (num_vertices prim) then []
                     else [''Invalid number of faces detected.''])))"

fun import_primitives ::
  "Mesh \<Rightarrow> nat \<Rightarrow> Primitive list \<Rightarrow> error + (aiMesh list \<times> string list)" where
  "import_primitives mesh p [] = Inr ([], [])"
| "import_primitives mesh p (prim # prims) =
     ebind (import_primitive mesh p prim) (\<lambda>(aim, ws).
     ebind (import_primitives mesh (p + 1) prims) (\<lambda>(aims, ws').
       Inr (aim # aims, ws @ ws')))"

text \<open>
  The extension check at the head of the loop over the meshes; it is compiled only with
  \<open>ASSIMP_IMPORTER_GLTF_USE_OPEN3DGC\<close>, here the flag \<open>o3dgc\<close>.
\<close>

fun check_extensions :: "Mesh \<Rightarrow> EType list \<Rightarrow> error + unit" where
  "check_extensions mesh [] = Inr ()"
| "check_extensions mesh (Compression_Open3DGC # es) =
     (if length (primitives mesh) > 2
      then Inl (DeadlyImportError
        ''GLTF: When using Open3DGC compression then only one primitive per mesh are allowed.'')
      else check_extensions mesh es)"
| "check_extensions mesh (Other_EType code # es) =
     Inl (DeadlyImportError
       (''GLTF: Can not import mesh: unknown mesh extension (code: '' @ [CHR 0x22] @ digits10 code
        @ [CHR 0x22] @ ''), only Open3DGC is supported.''))"

text \<open>
  The loop over \<open>r.meshes\<close>: \<open>k\<close> is the running counter (an \<open>unsigned int\<close>),
  \<open>offs\<close> is \<open>meshOffsets\<close>, \<open>out\<close> the vector \<open>meshes\<close>.
\<close>

fun import_mesh_loop ::
  "bool \<Rightarrow> Mesh list \<Rightarrow> nat \<Rightarrow> nat list \<Rightarrow> aiMesh list \<Rightarrow> string list \<Rightarrow>
   error + (nat \<times> nat list \<times> aiMesh list \<times> string list)" where
  "import_mesh_loop o3dgc [] k offs out ws = Inr (k, offs, out, ws)"
| "import_mesh_loop o3dgc (mesh # rest) k offs out ws =
     ebind (if o3dgc then check_extensions mesh (Extension mesh) else Inr ()) (\<lambda>_.
     ebind (import_primitives mesh 0 (primitives mesh)) (\<lambda>(aims, ws').
       import_mesh_loop o3dgc rest
         (u32 (int k + int (length (primitives mesh))))
         (offs @ [k]) (out @ aims) (ws @ ws')))"

text \<open>\<open>ImportMeshes\<close>: the offset table \<open>meshOffsets\<close>, the output meshes, the warnings.\<close>

definition ImportMeshes :: "bool \<Rightarrow> Mesh list \<Rightarrow> error + (nat list \<times> aiMesh list \<times> string list)" where
  "ImportMeshes o3dgc r_meshes =
     ebind (import_mesh_loop o3dgc r_meshes 0 [] [] []) (\<lambda>(k, offs, out, ws).
       Inr (offs @ [k], out, ws))"

text \<open>
  The mesh references of a node (\<open>ImportNode\<close>, the block \<open>if (!node.meshes.empty())\<close>).
  \<open>count\<close> is the \<open>int\<close> the source sums up and allocates \<open>mMeshes\<close> with; the second
  loop writes one entry for each \<open>j\<close> of each range. Reading \<open>meshOffsets\<close> outside
  the table, or writing more entries than allocated (a descending range makes \<open>count\<close>
  smaller than the number of entries written), is an invalid access. Overflow of the
  \<open>int\<close> is not modelled.
\<close>

definition node_meshes :: "nat list \<Rightarrow> nat list \<Rightarrow> error + nat list" where
  "node_meshes meshOffsets refs =
     (if \<forall>idx \<in> set refs. idx + 1 < length meshOffsets
      then (let count = (\<Sum>idx \<leftarrow> refs. int (meshOffsets ! (idx + 1)) - int (meshOffsets ! idx));
                written = concat (map (\<lambda>idx. [meshOffsets ! idx ..< meshOffsets ! (idx + 1)]) refs)
            in if int (length written) = count then Inr written else Inl InvalidAccess)
      else Inl InvalidAccess)"

text \<open>
  A source mesh whose import does not fail: it passes the extension check where that is
  compiled in, and the faces of each of its primitives can be synthesized.
\<close>

definition mesh_ok :: "bool \<Rightarrow> Mesh \<Rightarrow> bool" where
  "mesh_ok o3dgc m \<longleftrightarrow>
     (o3dgc \<longrightarrow> check_extensions m (Extension m) = Inr ()) \<and>
     (\<forall>prim \<in> set (primitives m). \<not> isl (primitive_faces prim))"

abbreviation num_primitives :: "Mesh list \<Rightarrow> nat" where
  "num_primitives ms \<equiv> (\<Sum>m \<leftarrow> ms. length (primitives m))"

text \<open>Two source meshes, of 5 and of 3 primitives (single points).\<close>

definition points1 :: Primitive where
  "points1 = \<lparr> mode = PrimitiveMode_POINTS, position_count = Some 1, indices = None, material = None \<rparr>"

definition two_meshes :: "Mesh list" where
  "two_meshes =
     [\<lparr> mesh_id = ''a'', primitives = replicate 5 points1, Extension = [] \<rparr>,
      \<lparr> mesh_id = ''b'', primitives = replicate 3 points1, Extension = [] \<rparr>]"

text \<open>
  A source mesh that uses the Open3DGC compression and has three primitives.
\<close>

definition compressed_mesh :: Mesh where
  "compressed_mesh =
     \<lparr> mesh_id = ''c'', primitives = replicate 3 points1, Extension = [Compression_Open3DGC] \<rparr>"

section \<open>glTF importer: nodes (ImportNode, ImportNodes)\<close>

text \<open>
  Modelled from the spec: the "4x4 matrix" type \<open>aiMatrix4x4\<close> (declared outside the
  sources) with its rows \<open>a, b, c, d\<close>, the identity a default-constructed matrix holds,
  the matrix product \<open>operator*\<close>, and the translation and scaling matrices of a vector.
  The entries are \<open>float\<close> in the source and real numbers here: the model follows the
  order in which the source multiplies, not the rounding.
\<close>

type_synonym row4 = "real \<times> real \<times> real \<times> real"
type_synonym aiMatrix4x4 = "row4 \<times> row4 \<times> row4 \<times> row4"
type_synonym aiVector3D = "real \<times> real \<times> real"

definition identity4 :: aiMatrix4x4 where
  "identity4 = ((1, 0, 0, 0), (0, 1, 0, 0), (0, 0, 1, 0), (0, 0, 0, 1))"

fun dot4 :: "row4 \<Rightarrow> row4 \<Rightarrow> real" where
  "dot4 (x1, x2, x3, x4) (y1, y2, y3, y4) = x1 * y1 + x2 * y2 + x3 * y3 + x4 * y4"

fun columns :: "aiMatrix4x4 \<Rightarrow> aiMatrix4x4" where
  "columns ((a1, a2, a3, a4), (b1, b2, b3, b4), (c1, c2, c3, c4), (d1, d2, d3, d4)) =
     ((a1, b1, c1, d1), (a2, b2, c2, d2), (a3, b3, c3, d3), (a4, b4, c4, d4))"

fun row_times :: "row4 \<Rightarrow> aiMatrix4x4 \<Rightarrow> row4" where
  "row_times r (k1, k2, k3, k4) = (dot4 r k1, dot4 r k2, dot4 r k3, dot4 r k4)"

fun mat_mul :: "aiMatrix4x4 \<Rightarrow> aiMatrix4x4 \<Rightarrow> aiMatrix4x4" where
  "mat_mul (a, b, c, d) m =
     (row_times a (columns m), row_times b (columns m),
      row_times c (columns m), row_times d (columns m))"

fun Translation :: "aiVector3D \<Rightarrow> aiMatrix4x4" where
  "Translation (x, y, z) = ((1, 0, 0, x), (0, 1, 0, y), (0, 0, 1, z), (0, 0, 0, 1))"

fun Scaling :: "aiVector3D \<Rightarrow> aiMatrix4x4" where
  "Scaling (x, y, z) = ((x, 0, 0, 0), (0, y, 0, 0), (0, 0, z, 0), (0, 0, 0, 1))"

text \<open>
  A source node. \<open>matrix\<close>, \<open>translation\<close>, \<open>scale\<close>, \<open>rotation\<close> are the
  \<open>Nullable\<close> fields (\<open>None\<close>: \<open>isPresent\<close> is false); \<open>matrix\<close> holds the value as
  \<open>CopyValue\<close> converts it, \<open>rotation\<close> holds \<open>aiMatrix4x4(rot.GetMatrix())\<close> of the
  quaternion. \<open>meshes\<close> are the indices of the referenced source meshes. The children are
  owned by the node, so a source node is a tree.
\<close>

record NodeData =
  node_id :: string
  matrix :: "aiMatrix4x4 option"
  translation :: "aiVector3D option"
  scale :: "aiVector3D option"
  rotation :: "aiMatrix4x4 option"
  meshes :: "nat list"

datatype Node = Node NodeData "Node list"

datatype aiNode =
  aiNode (node_mName: string) (mTransformation: aiMatrix4x4) (mMeshes: "nat list")
         (mChildren: "aiNode list")

text \<open>
  The transformation of an output node (\<open>ImportNode\<close>, from
  \<open>aiMatrix4x4 &matrix = ainode->mTransformation\<close> on): \<open>matrix\<close> starts as the identity
  of the fresh node and each present component is multiplied from the left.
\<close>

definition node_transform :: "NodeData \<Rightarrow> aiMatrix4x4" where
  "node_transform node =
     (case matrix node of
        Some m \<Rightarrow> m
      | None \<Rightarrow>
          (let m0 = identity4;
               m1 = (case translation node of Some v \<Rightarrow> mat_mul (Translation v) m0 | None \<Rightarrow> m0);
               m2 = (case scale node of Some v \<Rightarrow> mat_mul (Scaling v) m1 | None \<Rightarrow> m1);
               m3 = (case rotation node of Some r \<Rightarrow> mat_mul r m2 | None \<Rightarrow> m2)
           in m3))"

text \<open>
  The composition as the specification words it:
  \<open>matrix = translation * scale * rotation * identity\<close>, an absent component being the
  identity.
\<close>

definition spec_transform :: "NodeData \<Rightarrow> aiMatrix4x4" where
  "spec_transform node =
     (case matrix node of
        Some m \<Rightarrow> m
      | None \<Rightarrow>
          mat_mul (case translation node of Some v \<Rightarrow> Translation v | None \<Rightarrow> identity4)
            (mat_mul (case scale node of Some v \<Rightarrow> Scaling v | None \<Rightarrow> identity4)
               (mat_mul (case rotation node of Some r \<Rightarrow> r | None \<Rightarrow> identity4) identity4)))"

text \<open>
  \<open>ImportNode\<close>: the children first, then the transformation, then the mesh references.
  (Writing the node's name to the camera and the light it references is left out.)
\<close>

fun ImportNode :: "nat list \<Rightarrow> Node \<Rightarrow> error + aiNode"
  and ImportNode_children :: "nat list \<Rightarrow> Node list \<Rightarrow> error + aiNode list" where
  "ImportNode meshOffsets (Node node cs) =
     ebind (ImportNode_children meshOffsets cs) (\<lambda>kids.
     ebind (node_meshes meshOffsets (meshes node)) (\<lambda>ms.
       Inr (aiNode (node_id node) (node_transform node) ms kids)))"
| "ImportNode_children meshOffsets [] = Inr []"
| "ImportNode_children meshOffsets (c # cs) =
     ebind (ImportNode meshOffsets c) (\<lambda>child.
     ebind (ImportNode_children meshOffsets cs) (\<lambda>rest. Inr (child # rest)))"

text \<open>
  \<open>ImportNodes\<close>: \<open>scene\<close> is \<open>r.scene\<close> with its list of root nodes (\<open>None\<close>: the
  asset has no scene). The result is \<open>mScene->mRootNode\<close>, \<open>None\<close> for the null pointer
  a fresh scene holds.
\<close>

definition ImportNodes :: "nat list \<Rightarrow> Node list option \<Rightarrow> error + aiNode option" where
  "ImportNodes meshOffsets scene =
     (case scene of
        None \<Rightarrow> Inr None
      | Some rootNodes \<Rightarrow>
          (let numRootNodes = length rootNodes
           in if numRootNodes = 1
              then ebind (ImportNode meshOffsets (rootNodes ! 0)) (\<lambda>root. Inr (Some root))
              else if numRootNodes > 1
              then ebind (ImportNode_children meshOffsets rootNodes) (\<lambda>kids.
                     Inr (Some (aiNode ''ROOT'' identity4 [] kids)))
              else Inr None))"

text \<open>Every mesh reference below a node lies inside the offset table, which is ascending there.\<close>

fun refs_ok :: "nat list \<Rightarrow> Node \<Rightarrow> bool" where
  "refs_ok meshOffsets (Node node cs) \<longleftrightarrow>
     (\<forall>idx \<in> set (meshes node).
        idx + 1 < length meshOffsets \<and> meshOffsets ! idx \<le> meshOffsets ! (idx + 1)) \<and>
     (\<forall>c \<in> set cs. refs_ok meshOffsets c)"

text \<open>
  Example nodes: a node without transformation or meshes; a node with a translation and
  a scale; two root nodes, the second with a mesh reference and a child.
\<close>

definition plain_node :: "string \<Rightarrow> NodeData" where
  "plain_node nm = \<lparr> node_id = nm, matrix = None, translation = None, scale = None,
                     rotation = None, meshes = [] \<rparr>"

definition moved_scaled_node :: NodeData where
  "moved_scaled_node = (plain_node ''n'')\<lparr> translation := Some (1, 0, 0), scale := Some (2, 1, 1) \<rparr>"

definition two_roots :: "Node list" where
  "two_roots = [Node (plain_node ''a'') [], Node ((plain_node ''b'')\<lparr> meshes := [0] \<rparr>) [Node (plain_node ''c'') []]]"

section \<open>glTF importer: embedded textures and material channels\<close>



text \<open>
  A material channel (\<open>TexProperty\<close>): \<open>texture\<close> is \<open>None\<close> without a texture,
  \<open>Some None\<close> for a texture without a source image, \<open>Some (Some i)\<close> for a texture
  whose source is image \<open>i\<close>; \<open>color\<close> is the constant colour otherwise.
\<close>

record 'c TexProperty =
  texture :: "nat option option"
  color :: 'c




section \<open>glTF importer: CanRead\<close>







section \<open>ASE parser: scanner state and primitives (ASEParser.cpp)\<close>

text \<open>
  The parser's members: \<open>input\<close> is the buffer from \<open>mFilePtr\<close> up to \<open>mEnd\<close>, where
  the terminating NUL stands (\<open>*mFilePtr\<close> on the empty list is NUL); \<open>warnings\<close>
  collects what \<open>LogWarning\<close> sends to the logger.
\<close>

record pstate =
  input :: string
  iLineNumber :: "32 word"
  bLastWasEndLine :: bool
  warnings :: "string list"

abbreviation NUL :: char where "NUL \<equiv> CHR 0x00"
abbreviation CR :: char where "CR \<equiv> CHR 0x0D"
abbreviation LF :: char where "LF \<equiv> CHR 0x0A"

definition cur :: "pstate \<Rightarrow> char" where
  "cur st = (case input st of [] \<Rightarrow> NUL | c # _ \<Rightarrow> c)"

text \<open>\<open>++mFilePtr\<close>; the source never does it on the terminating NUL.\<close>

definition advance :: "pstate \<Rightarrow> pstate" where
  "advance st = st\<lparr> input := tl (input st) \<rparr>"

text \<open>
  Modelled from the spec: the scanner primitives of ParsingUtils.h and fast_atof.h, which
  are not among the sources: "line-end detection" (a carriage return, a line feed, a form
  feed or the NUL ends a line), \<open>skip_spaces(cursor) -> bool\<close> ("false if only
  line-end/EOF remains") over spaces and tabs, \<open>read_unsigned_int(cursor) -> (value,
  new_cursor)\<close> (the decimal digits at the cursor, in \<open>unsigned int\<close> arithmetic), and
  the "case-sensitive literal prefix match" of a keyword that a space or a line end must
  follow.
\<close>

definition IsLineEnd :: "char \<Rightarrow> bool" where
  "IsLineEnd c \<longleftrightarrow> c = CR \<or> c = LF \<or> c = NUL \<or> c = CHR 0x0C"

definition IsSpace :: "char \<Rightarrow> bool" where
  "IsSpace c \<longleftrightarrow> c = CHR '' '' \<or> c = CHR 0x09"

definition IsSpaceOrNewLine :: "char \<Rightarrow> bool" where
  "IsSpaceOrNewLine c \<longleftrightarrow> IsSpace c \<or> IsLineEnd c"

definition SkipSpaces :: "pstate \<Rightarrow> bool \<times> pstate" where
  "SkipSpaces st =
     (let st' = st\<lparr> input := dropWhile IsSpace (input st) \<rparr> in (\<not> IsLineEnd (cur st'), st'))"

definition is_digit :: "char \<Rightarrow> bool" where
  "is_digit c \<longleftrightarrow> c \<in> set ''0123456789''"

definition digit_value :: "char \<Rightarrow> nat" where
  "digit_value c = of_char c - 48"

definition strtoul10 :: "pstate \<Rightarrow> nat \<times> pstate" where
  "strtoul10 st =
     (foldl (\<lambda>v c. (v * 10 + digit_value c) mod 2 ^ 32) 0 (takeWhile is_digit (input st)),
      st\<lparr> input := dropWhile is_digit (input st) \<rparr>)"

definition TokenMatch :: "string \<Rightarrow> pstate \<Rightarrow> bool \<times> pstate" where
  "TokenMatch token st =
     (let len = length token;
          after = (case drop len (input st) of [] \<Rightarrow> NUL | c # _ \<Rightarrow> c)
      in if take len (input st) = token \<and> IsSpaceOrNewLine after
         then (True, st\<lparr> input := drop (len + (if after \<noteq> NUL then 1 else 0)) (input st) \<rparr>)
         else (False, st))"

text \<open>\<open>LogWarning\<close> and \<open>LogError\<close>: the message after \<open>Line %u: \<close>.\<close>

definition line_message :: "pstate \<Rightarrow> string \<Rightarrow> string" where
  "line_message st msg = ''Line '' @ digits10 (unat (iLineNumber st)) @ '': '' @ msg"

definition LogWarning :: "pstate \<Rightarrow> string \<Rightarrow> pstate" where
  "LogWarning st szWarn = st\<lparr> warnings := warnings st @ [line_message st szWarn] \<rparr>"

definition LogError :: "pstate \<Rightarrow> string \<Rightarrow> error" where
  "LogError st szWarn = DeadlyImportError (line_message st szWarn)"

text \<open>
  The line counting that \<open>SkipToNextToken\<close> and both section macros do on the
  character \<open>c\<close> at the cursor.
\<close>

definition count_line :: "char \<Rightarrow> pstate \<Rightarrow> pstate" where
  "count_line c st =
     (if IsLineEnd c \<and> \<not> bLastWasEndLine st
      then st\<lparr> iLineNumber := iLineNumber st + 1, bLastWasEndLine := True \<rparr>
      else st\<lparr> bLastWasEndLine := False \<rparr>)"

function SkipToNextToken :: "pstate \<Rightarrow> bool \<times> pstate" where
  "SkipToNextToken st =
     (case input st of
        [] \<Rightarrow> (False, st)
      | me # rest \<Rightarrow>
          (let st1 = count_line me st
           in if me = CHR ''*'' \<or> me = CHR ''}'' \<or> me = CHR ''{'' then (True, st1)
              else if me = NUL then (False, st1)
              else SkipToNextToken (st1\<lparr> input := rest \<rparr>)))"
  by pat_completeness auto
termination
  by (relation "measure (\<lambda>st. length (input st))") (auto simp: count_line_def)

declare SkipToNextToken.simps [simp del]

text \<open>\<open>SkipSection\<close>: the loop with its counter \<open>iCnt\<close>, started at 0.\<close>

function SkipSection_loop :: "int \<Rightarrow> pstate \<Rightarrow> bool \<times> pstate" where
  "SkipSection_loop iCnt st =
     (if cur st = CHR ''}''
      then (if iCnt - 1 = 0 then (True, snd (SkipToNextToken (advance st)))
            else SkipSection_loop (iCnt - 1) (advance st))
      else if cur st = CHR ''{'' then SkipSection_loop (iCnt + 1) (advance st)
      else if cur st = NUL
      then (False, LogWarning st
              (''Unable to parse block: Unexpected EOF, closing bracket '' @ [CHR 0x27] @ ''}''
                @ [CHR 0x27] @ '' was expected [#1]''))
      else if IsLineEnd (cur st)
      then SkipSection_loop iCnt (advance (st\<lparr> iLineNumber := iLineNumber st + 1 \<rparr>))
      else SkipSection_loop iCnt (advance st))"
  by pat_completeness auto
termination
  by (relation "measure (\<lambda>(iCnt, st). length (input st))")
     (auto simp: cur_def advance_def split: list.splits)

declare SkipSection_loop.simps [simp del]

definition SkipSection :: "pstate \<Rightarrow> bool \<times> pstate" where
  "SkipSection st = SkipSection_loop 0 st"

section \<open>ASE parser: the section handlers\<close>

text \<open>
  What one pass through a section macro does to the handler's loop: \<open>Return\<close> leaves the
  handler, \<open>Next\<close> goes round the loop, with the new \<open>iDepth\<close> and parser state.
\<close>

datatype 'a flow = Return 'a | Next 'a

text \<open>
  \<open>AI_ASE_HANDLE_SECTION(level, msg)\<close>, the macro of the nested sections: the end of
  the input is an error.
\<close>

definition AI_ASE_HANDLE_SECTION ::
  "string \<Rightarrow> string \<Rightarrow> int \<Rightarrow> pstate \<Rightarrow> error + (int \<times> pstate) flow" where
  "AI_ASE_HANDLE_SECTION level msg iDepth st =
     (if cur st = CHR ''{''
      then Inr (Next (iDepth + 1, advance (count_line (cur st) st)))
      else if cur st = CHR ''}''
      then (if iDepth - 1 = 0
            then Inr (Return (iDepth - 1, snd (SkipToNextToken (advance st))))
            else Inr (Next (iDepth - 1, advance (count_line (cur st) st))))
      else if cur st = NUL
      then Inl (LogError st (''Encountered unexpected EOL while parsing a '' @ msg
                             @ '' chunk (Level '' @ level @ '')''))
      else Inr (Next (iDepth, advance (count_line (cur st) st))))"

text \<open>
  \<open>AI_ASE_HANDLE_TOP_LEVEL_SECTION()\<close>: "EOF is no error in this case". The macro
  begins with \<open>else if\<close>, so its brace tests are skipped when the handler's
  \<open>if ('*' == *mFilePtr)\<close> was taken (\<open>star\<close>) and no keyword continued the loop.
\<close>

definition AI_ASE_HANDLE_TOP_LEVEL_SECTION ::
  "bool \<Rightarrow> int \<Rightarrow> pstate \<Rightarrow> (int \<times> pstate) flow" where
  "AI_ASE_HANDLE_TOP_LEVEL_SECTION star iDepth st =
     (if \<not> star \<and> cur st = CHR ''}'' \<and> iDepth - 1 = 0
      then Return (iDepth - 1, snd (SkipToNextToken (advance st)))
      else (let iDepth' = (if star then iDepth
                           else if cur st = CHR ''{'' then iDepth + 1
                           else if cur st = CHR ''}'' then iDepth - 1
                           else iDepth)
            in if cur st = NUL then Return (iDepth', st)
               else Next (iDepth', advance (count_line (cur st) st))))"

text \<open>
  What the keyword chain inside \<open>if ('*' == *mFilePtr) { ++mFilePtr; ... }\<close> of a handler
  does: a keyword matched and its action ended with \<open>continue\<close>; or the chain fell
  through to the section macro (possibly after an action without \<open>continue\<close>); or an
  action returned from the handler. An action may raise (\<open>Inl\<close>): the actions call the
  handlers of the sub-sections. The chain sees \<open>iDepth\<close>, the parser state and the data
  \<open>'m\<close> the handler fills.
\<close>

datatype 'a dispatch = Continue 'a | Fallthrough 'a | Returned 'a

type_synonym 'm keyword_chain = "int \<Rightarrow> pstate \<times> 'm \<Rightarrow> error + (pstate \<times> 'm) dispatch"

text \<open>
  The loop \<open>while (true) { if ('*' == *mFilePtr) {...} AI_ASE_HANDLE_SECTION(..); }\<close> of
  a nested handler, for any keyword chain. The loop runs on fuel: \<open>None\<close> means the fuel
  ran out.
\<close>

fun nested_section ::
  "string \<Rightarrow> string \<Rightarrow> 'm keyword_chain \<Rightarrow> nat \<Rightarrow> int \<Rightarrow> pstate \<times> 'm \<Rightarrow> (error + pstate \<times> 'm) option" where
  "nested_section level msg kw 0 iDepth (st, m) = None"
| "nested_section level msg kw (Suc fuel) iDepth (st, m) =
     (case (if cur st = CHR ''*'' then kw iDepth (advance st, m)
            else Inr (Fallthrough (st, m))) of
        Inl e \<Rightarrow> Some (Inl e)
      | Inr (Continue s) \<Rightarrow> nested_section level msg kw fuel iDepth s
      | Inr (Returned s) \<Rightarrow> Some (Inr s)
      | Inr (Fallthrough (st1, m1)) \<Rightarrow>
          (case AI_ASE_HANDLE_SECTION level msg iDepth st1 of
             Inl e \<Rightarrow> Some (Inl e)
           | Inr (Return (d, st2)) \<Rightarrow> Some (Inr (st2, m1))
           | Inr (Next (d, st2)) \<Rightarrow> nested_section level msg kw fuel d (st2, m1)))"

text \<open>The same loop with \<open>AI_ASE_HANDLE_TOP_LEVEL_SECTION()\<close>.\<close>

fun top_level_section ::
  "'m keyword_chain \<Rightarrow> nat \<Rightarrow> int \<Rightarrow> pstate \<times> 'm \<Rightarrow> (error + pstate \<times> 'm) option" where
  "top_level_section kw 0 iDepth (st, m) = None"
| "top_level_section kw (Suc fuel) iDepth (st, m) =
     (case (if cur st = CHR ''*'' then map_sum id (Pair True) (kw iDepth (advance st, m))
            else Inr (False, Fallthrough (st, m))) of
        Inl e \<Rightarrow> Some (Inl e)
      | Inr (star, Continue s) \<Rightarrow> top_level_section kw fuel iDepth s
      | Inr (star, Returned s) \<Rightarrow> Some (Inr s)
      | Inr (star, Fallthrough (st1, m1)) \<Rightarrow>
          (case AI_ASE_HANDLE_TOP_LEVEL_SECTION star iDepth st1 of
             Return (d, st2) \<Rightarrow> Some (Inr (st2, m1))
           | Next (d, st2) \<Rightarrow> top_level_section kw fuel d (st2, m1)))"

text \<open>
  The handlers of the parser that run such a loop (\<open>h_F\<close> stands for the function
  \<open>Parser::F\<close>), and the macro each of them ends its
  loop with (for the nested ones with the macro's arguments \<open>level\<close> and \<open>msg\<close>).
  \<open>ParseLV1SoftSkinBlock\<close> has a positional loop of its own and is not among them.
\<close>

datatype handler =
    h_Parse | h_ParseLV1SceneBlock | h_ParseLV1MaterialListBlock | h_ParseLV1ObjectBlock
  | h_ParseLV2MaterialBlock | h_ParseLV3MapBlock | h_ParseLV2CameraSettingsBlock
  | h_ParseLV2LightSettingsBlock | h_ParseLV2AnimationBlock | h_ParseLV3ScaleAnimationBlock
  | h_ParseLV3PosAnimationBlock | h_ParseLV3RotAnimationBlock | h_ParseLV2NodeTransformBlock
  | h_ParseLV2MeshBlock | h_ParseLV3MeshWeightsBlock | h_ParseLV4MeshBones
  | h_ParseLV4MeshBonesVertices | h_ParseLV3MeshVertexListBlock | h_ParseLV3MeshFaceListBlock
  | h_ParseLV3MeshTListBlock | h_ParseLV3MeshTFaceListBlock | h_ParseLV3MappingChannel
  | h_ParseLV3MeshCListBlock | h_ParseLV3MeshCFaceListBlock | h_ParseLV3MeshNormalListBlock

datatype section_macro = TOP_LEVEL_SECTION | SECTION string string

fun macro_of :: "handler \<Rightarrow> section_macro" where
  "macro_of h_Parse = TOP_LEVEL_SECTION"
| "macro_of h_ParseLV1SceneBlock = TOP_LEVEL_SECTION"
| "macro_of h_ParseLV1MaterialListBlock = TOP_LEVEL_SECTION"
| "macro_of h_ParseLV1ObjectBlock = TOP_LEVEL_SECTION"
| "macro_of h_ParseLV2MaterialBlock = SECTION ''2'' ''*MATERIAL''"
| "macro_of h_ParseLV3MapBlock = SECTION ''3'' ''*MAP_XXXXXX''"
| "macro_of h_ParseLV2CameraSettingsBlock = SECTION ''2'' ''CAMERA_SETTINGS''"
| "macro_of h_ParseLV2LightSettingsBlock = SECTION ''2'' ''LIGHT_SETTINGS''"
| "macro_of h_ParseLV2AnimationBlock = SECTION ''2'' ''TM_ANIMATION''"
| "macro_of h_ParseLV3ScaleAnimationBlock = SECTION ''3'' ''*CONTROL_POS_TRACK''"
| "macro_of h_ParseLV3PosAnimationBlock = SECTION ''3'' ''*CONTROL_POS_TRACK''"
| "macro_of h_ParseLV3RotAnimationBlock = SECTION ''3'' ''*CONTROL_ROT_TRACK''"
| "macro_of h_ParseLV2NodeTransformBlock = SECTION ''2'' ''*NODE_TM''"
| "macro_of h_ParseLV2MeshBlock = SECTION ''2'' ''*MESH''"
| "macro_of h_ParseLV3MeshWeightsBlock = SECTION ''3'' ''*MESH_WEIGHTS''"
| "macro_of h_ParseLV4MeshBones = SECTION ''3'' ''*MESH_BONE_LIST''"
| "macro_of h_ParseLV4MeshBonesVertices = SECTION ''4'' ''*MESH_BONE_VERTEX''"
| "macro_of h_ParseLV3MeshVertexListBlock = SECTION ''3'' ''*MESH_VERTEX_LIST''"
| "macro_of h_ParseLV3MeshFaceListBlock = SECTION ''3'' ''*MESH_FACE_LIST''"
| "macro_of h_ParseLV3MeshTListBlock = SECTION ''3'' ''*MESH_TVERT_LIST''"
| "macro_of h_ParseLV3MeshTFaceListBlock = SECTION ''3'' ''*MESH_TFACE_LIST''"
| "macro_of h_ParseLV3MappingChannel = SECTION ''3'' ''*MESH_MAPPING_CHANNEL''"
| "macro_of h_ParseLV3MeshCListBlock = SECTION ''3'' ''*MESH_CVERTEX_LIST''"
| "macro_of h_ParseLV3MeshCFaceListBlock = SECTION ''3'' ''*MESH_CFACE_LIST''"
| "macro_of h_ParseLV3MeshNormalListBlock = SECTION ''3'' ''*MESH_NORMALS''"

text \<open>
  A handler with the keyword chain \<open>kw\<close> of its body, from \<open>AI_ASE_PARSER_INIT()\<close>
  (\<open>iDepth = 0\<close>) on.
\<close>

definition handler_loop ::
  "handler \<Rightarrow> 'm keyword_chain \<Rightarrow> nat \<Rightarrow> int \<Rightarrow> pstate \<times> 'm \<Rightarrow> (error + pstate \<times> 'm) option" where
  "handler_loop h kw fuel iDepth s =
     (case macro_of h of
        TOP_LEVEL_SECTION \<Rightarrow> top_level_section kw fuel iDepth s
      | SECTION level msg \<Rightarrow> nested_section level msg kw fuel iDepth s)"

definition run_handler ::
  "handler \<Rightarrow> 'm keyword_chain \<Rightarrow> nat \<Rightarrow> pstate \<times> 'm \<Rightarrow> (error + pstate \<times> 'm) option" where
  "run_handler h kw fuel s = handler_loop h kw fuel 0 s"

text \<open>A keyword chain in which no keyword matches, and a parser at the start of a buffer.\<close>

definition no_keywords :: "unit keyword_chain" where
  "no_keywords iDepth s = Inr (Fallthrough s)"

definition parser_at :: "string \<Rightarrow> pstate" where
  "parser_at buf = \<lparr> input = buf, iLineNumber = 0, bLastWasEndLine = False, warnings = [] \<rparr>"

section \<open>ASE parser: faces (ParseLV4MeshFace)\<close>

text \<open>
  An \<open>ASE::Face\<close>: the face index, the three vertex indices, the smoothing-group mask
  and the material index. (The UV and colour indices, which other blocks fill, are left
  out.)
\<close>

record Face =
  iFace :: nat
  mIndices :: "nat list"
  iSmoothGroup :: "32 word"
  iMaterial :: nat

text \<open>\<open>LogWarning(..); SkipToNextToken(); return;\<close>\<close>

definition bail :: "pstate \<Rightarrow> string \<Rightarrow> Face \<Rightarrow> pstate \<times> Face" where
  "bail st msg out = (snd (SkipToNextToken (LogWarning st msg)), out)"

text \<open>
  One round of \<open>for (unsigned int i = 0; i < 3; ++i)\<close>: \<open>Inl\<close> when the function
  returned, \<open>Inr\<close> when the loop goes on.
\<close>

definition face_slot :: "pstate \<times> Face \<Rightarrow> (pstate \<times> Face) + (pstate \<times> Face)" where
  "face_slot = (\<lambda>(st, out).
     let (ok1, s1) = SkipSpaces st in
     if \<not> ok1 then Inl (bail s1 ''Unable to parse *MESH_FACE Element: Unexpected EOL'' out)
     else if cur s1 \<notin> set ''AaBbCc''
     then Inl (bail s1 ''Unable to parse *MESH_FACE Element: Unexpected EOL. A,B or C expected [#3]'' out)
     else
       let iIndex = (if cur s1 \<in> set ''Aa'' then 0 else if cur s1 \<in> set ''Bb'' then 1 else 2);
           (ok2, s2) = SkipSpaces (advance s1) in
       if \<not> ok2 \<or> cur s2 \<noteq> CHR '':''
       then Inl (bail s2 (''Unable to parse *MESH_FACE Element: Unexpected EOL. '' @ [CHR 0x27]
                          @ '':'' @ [CHR 0x27] @ '' expected [#2]'') out)
       else
         let (ok3, s3) = SkipSpaces (advance s2) in
         if \<not> ok3
         then Inl (bail s3 ''Unable to parse *MESH_FACE Element: Unexpected EOL. Vertex index expected [#4]'' out)
         else let (v, s4) = strtoul10 s3
              in Inr (s4, out\<lparr> mIndices := (mIndices out)[iIndex := v] \<rparr>))"

text \<open>
  \<open>while (true) { if ('*' == *mFilePtr) break; if (IsLineEnd(*mFilePtr)) return;
  mFilePtr++; }\<close>: the cursor afterwards; the function returns unless it stands on a
  \<open>*\<close>.
\<close>

definition skip_to_star :: "pstate \<Rightarrow> pstate" where
  "skip_to_star st =
     st\<lparr> input := dropWhile (\<lambda>c. c \<noteq> CHR ''*'' \<and> \<not> IsLineEnd c) (input st) \<rparr>"

text \<open>
  The body of \<open>if (*mFilePtr < '9' && *mFilePtr >= '0')\<close> in the smoothing-group loop.
  The shift amount is a second call of \<open>strtoul10\<close>, at the cursor the first call left.
\<close>

definition smoothing_value :: "pstate \<times> Face \<Rightarrow> pstate \<times> Face" where
  "smoothing_value = (\<lambda>(st, out).
     if (of_char (cur st) :: nat) < of_char (CHR ''9'') \<and> (of_char (cur st) :: nat) \<ge> of_char (CHR ''0'')
     then (let (val, st1) = strtoul10 st in
           if val < 32
           then (let (shift, st2) = strtoul10 st1
                 in (st2, out\<lparr> iSmoothGroup := iSmoothGroup out OR push_bit shift 1 \<rparr>))
           else (LogWarning st1 (''Unable to set smooth group, value with '' @ digits10 val
                                 @ '' out of range''), out))
     else (st, out))"

function smoothing_loop :: "pstate \<times> Face \<Rightarrow> pstate \<times> Face" where
  "smoothing_loop s =
     (let (st1, out1) = smoothing_value s;
          st2 = snd (SkipSpaces st1)
      in if cur st2 \<noteq> CHR '','' then (st2, out1)
         else smoothing_loop (snd (SkipSpaces (advance st2)), out1))"
  by pat_completeness auto
termination
proof (relation "measure (\<lambda>s. length (input (fst s)))")
  show "wf (measure (\<lambda>s. length (input (fst s))))" by simp
next
  fix s :: "pstate \<times> Face" and x st1 out1 st2
  assume a: "x = smoothing_value s" "(st1, out1) = x" "st2 = snd (SkipSpaces st1)"
    and c: "\<not> cur st2 \<noteq> CHR '',''"
  have d: "length (input (snd (strtoul10 t))) \<le> length (input t)" for t
    by (simp add: strtoul10_def length_dropWhile_le)
  have sp: "length (input (snd (SkipSpaces t))) \<le> length (input t)" for t
    by (simp add: SkipSpaces_def Let_def length_dropWhile_le)
  have "length (input (fst (smoothing_value s))) \<le> length (input (fst s))"
    using d [of "fst s"] d [of "snd (strtoul10 (fst s))"]
    by (cases s) (auto simp: smoothing_value_def LogWarning_def split: prod.splits)
  with a have 1: "length (input st1) \<le> length (input (fst s))"
    by (metis fst_conv)
  from a sp [of st1] have 2: "length (input st2) \<le> length (input st1)" by simp
  from c have "input st2 \<noteq> []" by (auto simp: cur_def)
  then have 3: "length (input (advance st2)) < length (input st2)"
    by (cases "input st2") (auto simp: advance_def)
  from sp [of "advance st2"] 1 2 3
  show "((snd (SkipSpaces (advance st2)), out1), s) \<in> measure (\<lambda>s. length (input (fst s)))"
    by simp
qed

declare smoothing_loop.simps [simp del]

text \<open>The part \<open>if (TokenMatch(mFilePtr, "*MESH_SMOOTHING", 15)) { ... }\<close>.\<close>

definition parse_smoothing :: "pstate \<times> Face \<Rightarrow> (pstate \<times> Face) + (pstate \<times> Face)" where
  "parse_smoothing = (\<lambda>(st, out).
     let (matched, s1) = TokenMatch ''*MESH_SMOOTHING'' st in
     if \<not> matched then Inr (s1, out)
     else let (ok, s2) = SkipSpaces s1 in
          if \<not> ok
          then Inl (bail s2 ''Unable to parse *MESH_SMOOTHING Element: Unexpected EOL. Smoothing group(s) expected [#5]'' out)
          else Inr (smoothing_loop (s2, out)))"

text \<open>The part \<open>if (TokenMatch(mFilePtr, "*MESH_MTLID", 11)) { ... }\<close>.\<close>

definition parse_mtlid :: "pstate \<times> Face \<Rightarrow> pstate \<times> Face" where
  "parse_mtlid = (\<lambda>(st, out).
     let (matched, s1) = TokenMatch ''*MESH_MTLID'' st in
     if \<not> matched then (s1, out)
     else let (ok, s2) = SkipSpaces s1 in
          if \<not> ok
          then bail s2 ''Unable to parse *MESH_MTLID Element: Unexpected EOL. Material index expected [#6]'' out
          else let (v, s3) = strtoul10 s2 in (s3, out\<lparr> iMaterial := v \<rparr>))"

definition ParseLV4MeshFace :: "pstate \<times> Face \<Rightarrow> pstate \<times> Face" where
  "ParseLV4MeshFace = (\<lambda>(st, out).
     let (ok1, s1) = SkipSpaces st in
     if \<not> ok1 then bail s1 ''Unable to parse *MESH_FACE Element: Unexpected EOL [#1]'' out
     else
       let (v, s2) = strtoul10 s1;
           out1 = out\<lparr> iFace := v \<rparr>;
           (ok2, s3) = SkipSpaces s2 in
       if \<not> ok2
       then bail s3 (''Unable to parse *MESH_FACE Element: Unexpected EOL. '' @ [CHR 0x27]
                     @ '':'' @ [CHR 0x27] @ '' expected [#2]'') out1
       else
         let s4 = (if cur s3 = CHR '':'' then advance s3 else s3) in
         case face_slot (s4, out1) of Inl r \<Rightarrow> r | Inr a \<Rightarrow>
         case face_slot a of Inl r \<Rightarrow> r | Inr b \<Rightarrow>
         case face_slot b of Inl r \<Rightarrow> r | Inr (s5, out2) \<Rightarrow>
         let s6 = skip_to_star s5 in
         if cur s6 \<noteq> CHR ''*'' then (s6, out2)
         else case parse_smoothing (s6, out2) of Inl r \<Rightarrow> r | Inr (s7, out3) \<Rightarrow>
              let s8 = skip_to_star s7 in
              if cur s8 \<noteq> CHR ''*'' then (s8, out3)
              else parse_mtlid (s8, out3))"

text \<open>
  A default-constructed face as \<open>ParseLV3MeshFaceListBlock\<close> passes it in
  (\<open>DEFAULT_MATINDEX\<close> is \<open>0xcdcdcdcd\<close>).
\<close>

definition new_Face :: Face where
  "new_Face = \<lparr> iFace = 0, mIndices = [0, 0, 0], iSmoothGroup = 0, iMaterial = 3452816845 \<rparr>"

section \<open>ASE parser: index-addressed declarations\<close>

text \<open>
  The arrays of an \<open>ASE::Mesh\<close> that the list blocks fill. Floating point payload is
  kept as real numbers; it is only stored.
\<close>

type_synonym aiColor4D = "real \<times> real \<times> real \<times> real"

record ASE_Mesh =
  mPositions :: "aiVector3D list"
  mFaces_ASE :: "Face list"
  amTexCoords :: "aiVector3D list list"
  mNumUVComponents :: "nat list"
  mVertexColors :: "aiColor4D list"
  mBoneVertices :: "(int \<times> real) list list"

text \<open>\<open>std::vector::resize(n, d)\<close>.\<close>

definition resize :: "nat \<Rightarrow> 'a \<Rightarrow> 'a list \<Rightarrow> 'a list" where
  "resize n d xs = take n xs @ replicate (n - length xs) d"

text \<open>
  The readers of numbers. \<open>fast_atoreal_move\<close> (fast_atof.h) is declared outside the
  sources and is a parameter: it reads a real number at the cursor and may throw.
  \<open>ParseLV4MeshFloat\<close> is \<open>ParseLV4MeshReal\<close> for \<open>float\<close>, and the
  \<open>FloatTriple\<close> readers are the \<open>RealTriple\<close> readers.
\<close>

type_synonym real_reader = "string \<Rightarrow> error + real \<times> string"

definition ParseLV4MeshLong :: "pstate \<Rightarrow> nat \<times> pstate" where
  "ParseLV4MeshLong st =
     (let (ok, s1) = SkipSpaces st in
      if \<not> ok
      then (0, (LogWarning s1 ''Unable to parse long: unexpected EOL [#1]'')
                 \<lparr> iLineNumber := iLineNumber s1 + 1 \<rparr>)
      else strtoul10 s1)"

definition ParseLV4MeshReal :: "real_reader \<Rightarrow> pstate \<Rightarrow> error + real \<times> pstate" where
  "ParseLV4MeshReal fast_atoreal_move st =
     (let (ok, s1) = SkipSpaces st in
      if \<not> ok
      then Inr (0, (LogWarning s1 ''Unable to parse float: unexpected EOL [#1]'')
                     \<lparr> iLineNumber := iLineNumber s1 + 1 \<rparr>)
      else ebind (fast_atoreal_move (input s1)) (\<lambda>(fOut, rest). Inr (fOut, s1\<lparr> input := rest \<rparr>)))"

definition ParseLV4MeshRealTriple :: "real_reader \<Rightarrow> pstate \<Rightarrow> error + aiVector3D \<times> pstate" where
  "ParseLV4MeshRealTriple fast_atoreal_move st =
     ebind (ParseLV4MeshReal fast_atoreal_move st) (\<lambda>(x, s1).
     ebind (ParseLV4MeshReal fast_atoreal_move s1) (\<lambda>(y, s2).
     ebind (ParseLV4MeshReal fast_atoreal_move s2) (\<lambda>(z, s3). Inr ((x, y, z), s3))))"

text \<open>The overload with \<open>rIndexOut\<close>: the index first, then the triple.\<close>

definition ParseLV4MeshRealTriple_indexed ::
  "real_reader \<Rightarrow> pstate \<Rightarrow> error + (nat \<times> aiVector3D) \<times> pstate" where
  "ParseLV4MeshRealTriple_indexed fast_atoreal_move st =
     (let (rIndexOut, s1) = ParseLV4MeshLong st
      in ebind (ParseLV4MeshRealTriple fast_atoreal_move s1) (\<lambda>(v, s2). Inr ((rIndexOut, v), s2)))"

text \<open>
  What each list block does with one declaration once its index and payload are read:
  the code after \<open>ParseLV4MeshRealTriple(&vTemp.x, iIndex)\<close> (or the sibling reader) in
  the \<open>TokenMatch\<close> branch. Each block resizes its array to the declared count first,
  so the \<open>else\<close> branch writes inside the array.
\<close>

definition store_MESH_VERTEX ::
  "nat \<Rightarrow> nat \<Rightarrow> aiVector3D \<Rightarrow> pstate \<times> ASE_Mesh \<Rightarrow> pstate \<times> ASE_Mesh" where
  "store_MESH_VERTEX iNumVertices iIndex vTemp = (\<lambda>(st, mesh).
     if iIndex \<ge> iNumVertices
     then (LogWarning st ''Invalid vertex index. It will be ignored'', mesh)
     else (st, mesh\<lparr> mPositions := (mPositions mesh)[iIndex := vTemp] \<rparr>))"

definition store_MESH_FACE :: "nat \<Rightarrow> Face \<Rightarrow> pstate \<times> ASE_Mesh \<Rightarrow> pstate \<times> ASE_Mesh" where
  "store_MESH_FACE iNumFaces mFace = (\<lambda>(st, mesh).
     if iFace mFace \<ge> iNumFaces
     then (LogWarning st ''Face has an invalid index. It will be ignored'', mesh)
     else (st, mesh\<lparr> mFaces_ASE := (mFaces_ASE mesh)[iFace mFace := mFace] \<rparr>))"

definition store_MESH_TVERT ::
  "nat \<Rightarrow> nat \<Rightarrow> nat \<Rightarrow> aiVector3D \<Rightarrow> pstate \<times> ASE_Mesh \<Rightarrow> pstate \<times> ASE_Mesh" where
  "store_MESH_TVERT iNumVertices iChannel iIndex vTemp = (\<lambda>(st, mesh).
     let (st1, mesh1) =
           (if iIndex \<ge> iNumVertices
            then (LogWarning st ''Tvertex has an invalid index. It will be ignored'', mesh)
            else (st, mesh\<lparr> amTexCoords :=
                     (amTexCoords mesh)[iChannel := (amTexCoords mesh ! iChannel)[iIndex := vTemp]] \<rparr>))
     in if snd (snd vTemp) \<noteq> 0
        then (st1, mesh1\<lparr> mNumUVComponents := (mNumUVComponents mesh1)[iChannel := 3] \<rparr>)
        else (st1, mesh1))"

definition store_MESH_VERTCOL ::
  "nat \<Rightarrow> nat \<Rightarrow> aiColor4D \<Rightarrow> pstate \<times> ASE_Mesh \<Rightarrow> pstate \<times> ASE_Mesh" where
  "store_MESH_VERTCOL iNumVertices iIndex vTemp = (\<lambda>(st, mesh).
     if iIndex \<ge> iNumVertices
     then (LogWarning st ''Vertex color has an invalid index. It will be ignored'', mesh)
     else (st, mesh\<lparr> mVertexColors := (mVertexColors mesh)[iIndex := vTemp] \<rparr>))"

text \<open>
  The four list blocks: the array is resized to the declared count, then the handler's
  loop runs with the block's one keyword. \<open>fuel\<close> bounds the rounds of the loop
  (\<open>None\<close>: it ran out).
\<close>

definition MESH_VERTEX_chain :: "real_reader \<Rightarrow> nat \<Rightarrow> ASE_Mesh keyword_chain" where
  "MESH_VERTEX_chain fast_atoreal_move iNumVertices iDepth = (\<lambda>(st, mesh).
     let (matched, s1) = TokenMatch ''MESH_VERTEX'' st in
     if matched
     then ebind (ParseLV4MeshRealTriple_indexed fast_atoreal_move s1) (\<lambda>((iIndex, vTemp), s2).
            Inr (Continue (store_MESH_VERTEX iNumVertices iIndex vTemp (s2, mesh))))
     else Inr (Fallthrough (s1, mesh)))"

definition ParseLV3MeshVertexListBlock ::
  "real_reader \<Rightarrow> nat \<Rightarrow> nat \<Rightarrow> pstate \<times> ASE_Mesh \<Rightarrow> (error + pstate \<times> ASE_Mesh) option" where
  "ParseLV3MeshVertexListBlock fast_atoreal_move iNumVertices fuel = (\<lambda>(st, mesh).
     run_handler h_ParseLV3MeshVertexListBlock (MESH_VERTEX_chain fast_atoreal_move iNumVertices) fuel
       (st, mesh\<lparr> mPositions := resize iNumVertices (0, 0, 0) (mPositions mesh) \<rparr>))"

definition MESH_FACE_chain :: "nat \<Rightarrow> ASE_Mesh keyword_chain" where
  "MESH_FACE_chain iNumFaces iDepth = (\<lambda>(st, mesh).
     let (matched, s1) = TokenMatch ''MESH_FACE'' st in
     if matched
     then (let (s2, mFace) = ParseLV4MeshFace (s1, new_Face)
           in Inr (Continue (store_MESH_FACE iNumFaces mFace (s2, mesh))))
     else Inr (Fallthrough (s1, mesh)))"

definition ParseLV3MeshFaceListBlock ::
  "nat \<Rightarrow> nat \<Rightarrow> pstate \<times> ASE_Mesh \<Rightarrow> (error + pstate \<times> ASE_Mesh) option" where
  "ParseLV3MeshFaceListBlock iNumFaces fuel = (\<lambda>(st, mesh).
     run_handler h_ParseLV3MeshFaceListBlock (MESH_FACE_chain iNumFaces) fuel
       (st, mesh\<lparr> mFaces_ASE := resize iNumFaces new_Face (mFaces_ASE mesh) \<rparr>))"

definition MESH_TVERT_chain :: "real_reader \<Rightarrow> nat \<Rightarrow> nat \<Rightarrow> ASE_Mesh keyword_chain" where
  "MESH_TVERT_chain fast_atoreal_move iNumVertices iChannel iDepth = (\<lambda>(st, mesh).
     let (matched, s1) = TokenMatch ''MESH_TVERT'' st in
     if matched
     then ebind (ParseLV4MeshRealTriple_indexed fast_atoreal_move s1) (\<lambda>((iIndex, vTemp), s2).
            Inr (Continue (store_MESH_TVERT iNumVertices iChannel iIndex vTemp (s2, mesh))))
     else Inr (Fallthrough (s1, mesh)))"

definition ParseLV3MeshTListBlock ::
  "real_reader \<Rightarrow> nat \<Rightarrow> nat \<Rightarrow> nat \<Rightarrow> pstate \<times> ASE_Mesh \<Rightarrow> (error + pstate \<times> ASE_Mesh) option" where
  "ParseLV3MeshTListBlock fast_atoreal_move iNumVertices iChannel fuel = (\<lambda>(st, mesh).
     run_handler h_ParseLV3MeshTListBlock (MESH_TVERT_chain fast_atoreal_move iNumVertices iChannel) fuel
       (st, mesh\<lparr> amTexCoords :=
              (amTexCoords mesh)[iChannel := resize iNumVertices (0, 0, 0) (amTexCoords mesh ! iChannel)] \<rparr>))"

text \<open>A vertex colour is read into \<open>vTemp\<close> with \<open>vTemp.a = 1.0f\<close> set before.\<close>

definition MESH_VERTCOL_chain :: "real_reader \<Rightarrow> nat \<Rightarrow> ASE_Mesh keyword_chain" where
  "MESH_VERTCOL_chain fast_atoreal_move iNumVertices iDepth = (\<lambda>(st, mesh).
     let (matched, s1) = TokenMatch ''MESH_VERTCOL'' st in
     if matched
     then ebind (ParseLV4MeshRealTriple_indexed fast_atoreal_move s1) (\<lambda>((iIndex, (r, g, b)), s2).
            Inr (Continue (store_MESH_VERTCOL iNumVertices iIndex (r, g, b, 1) (s2, mesh))))
     else Inr (Fallthrough (s1, mesh)))"

definition ParseLV3MeshCListBlock ::
  "real_reader \<Rightarrow> nat \<Rightarrow> nat \<Rightarrow> pstate \<times> ASE_Mesh \<Rightarrow> (error + pstate \<times> ASE_Mesh) option" where
  "ParseLV3MeshCListBlock fast_atoreal_move iNumVertices fuel = (\<lambda>(st, mesh).
     run_handler h_ParseLV3MeshCListBlock (MESH_VERTCOL_chain fast_atoreal_move iNumVertices) fuel
       (st, mesh\<lparr> mVertexColors := resize iNumVertices (0, 0, 0, 0) (mVertexColors mesh) \<rparr>))"

section \<open>ASE parser: the scene block (ParseLV1SceneBlock)\<close>







section \<open>ASE parser: bone vertices\<close>

text \<open>
  \<open>*MESH_BONE_VERTEX\<close> in \<open>ParseLV4MeshBonesVertices\<close>: \<open>iIndex\<close> is the vertex index
  read, \<open>pairs\<close> are the (bone index, weight) pairs the inner loop reads after the
  ignored triple. An index outside the array is replaced by the last valid one. On an
  empty array the section is skipped first and the replacement index wraps around; a
  pair pushed then goes outside the array.
\<close>

definition warn_bone_vertex :: string where
  "warn_bone_vertex = ''Bone vertex index is out of bounds. Using the largest valid bone vertex index instead''"

definition store_MESH_BONE_VERTEX ::
  "nat \<Rightarrow> (int \<times> real) list \<Rightarrow> pstate \<times> ASE_Mesh \<Rightarrow> error + pstate \<times> ASE_Mesh" where
  "store_MESH_BONE_VERTEX iIndex pairs = (\<lambda>(st, mesh).
     let n = length (mBoneVertices mesh);
         st1 = (if n = 0 then snd (SkipSection st) else st);
         (st2, iIndex') = (if iIndex \<ge> n then (LogWarning st1 warn_bone_vertex, u32 (int n - 1))
                           else (st1, iIndex));
         pushed = filter (\<lambda>pairOut. fst pairOut \<noteq> - 1) pairs
     in if pushed = [] then Inr (st2, mesh)
        else if iIndex' < n
        then Inr (st2, mesh\<lparr> mBoneVertices :=
                    (mBoneVertices mesh)[iIndex' := mBoneVertices mesh ! iIndex' @ pushed] \<rparr>)
        else Inl InvalidAccess)"

definition empty_mesh :: ASE_Mesh where
  "empty_mesh = \<lparr> mPositions = [], mFaces_ASE = [], amTexCoords = replicate 8 [],
                  mNumUVComponents = replicate 8 2, mVertexColors = [], mBoneVertices = [] \<rparr>"

text \<open>The message of the fatal error of a nested section, and the handlers that use the
  top-level macro.\<close>

definition eof_message :: "string \<Rightarrow> string \<Rightarrow> string" where
  "eof_message level msg =
     ''Encountered unexpected EOL while parsing a '' @ msg @ '' chunk (Level '' @ level @ '')''"



text \<open>
  A keyword chain that never moves the cursor backwards (the readers only advance it).
\<close>

fun dispatch_state :: "'a dispatch \<Rightarrow> 'a" where
  "dispatch_state (Continue s) = s"
| "dispatch_state (Fallthrough s) = s"
| "dispatch_state (Returned s) = s"

definition kw_no_growth :: "'m keyword_chain \<Rightarrow> bool" where
  "kw_no_growth kw \<longleftrightarrow>
     (\<forall>d s r. kw d s = Inr r \<longrightarrow>
        length (input (fst (dispatch_state r))) \<le> length (input (fst s)))"


text \<open>
  A keyword chain whose actions only consume input: the buffer left after the chain is a
  suffix of the buffer before it.
\<close>

definition kw_consumes :: "'m keyword_chain \<Rightarrow> bool" where
  "kw_consumes kw \<longleftrightarrow>
     (\<forall>d s r. kw d s = Inr r \<longrightarrow>
        suffix (input (fst (dispatch_state r))) (input (fst s)))"









text \<open>A \<open>*MESH_FACE\<close> record (after the keyword) that declares smoothing group 5.\<close>

definition face_line_smoothing_5 :: string where
  "face_line_smoothing_5 =
     '' 0: A: 0 B: 1 C: 2 AB: 1 BC: 1 CA: 0 *MESH_SMOOTHING 5 *MESH_MTLID 0'' @ [CR, LF]"


text \<open>
  Two lists that differ in slot \<open>i\<close> only, which holds \<open>v\<close>; and a parser state that
  differs from another by exactly one more warning.
\<close>

definition only_slot_changed :: "'a list \<Rightarrow> 'a list \<Rightarrow> nat \<Rightarrow> 'a \<Rightarrow> bool" where
  "only_slot_changed xs ys i v \<longleftrightarrow>
     length ys = length xs \<and> ys ! i = v \<and> (\<forall>j < length xs. j \<noteq> i \<longrightarrow> ys ! j = xs ! j)"

definition one_more_warning :: "pstate \<Rightarrow> pstate \<Rightarrow> bool" where
  "one_more_warning st st' \<longleftrightarrow> length (warnings st') = length (warnings st) + 1
     \<and> butlast (warnings st') = warnings st"

text \<open>Example meshes with arrays of two slots.\<close>

definition mesh2 :: ASE_Mesh where
  "mesh2 = \<lparr> mPositions = [(0, 0, 0), (0, 0, 0)], mFaces_ASE = [new_Face, new_Face],
             amTexCoords = [[(0, 0, 0), (0, 0, 0)]], mNumUVComponents = [2],
             mVertexColors = [(0, 0, 0, 0), (0, 0, 0, 0)], mBoneVertices = [[], []] \<rparr>"

definition two_bone_vertices :: ASE_Mesh where
  "two_bone_vertices = empty_mesh\<lparr> mBoneVertices := [[], []] \<rparr>"


text \<open>
  Two buffers for the face list block (after the keyword \<open>*MESH_FACE_LIST\<close>): one that
  ends before the closing brace, and a complete one that declares the faces 0 and 3.
\<close>

definition open_face_list :: string where
  "open_face_list = ''{'' @ [LF] @ ''*MESH_FACE 0: A: 0 B: 1 C: 2'' @ [LF]"

definition closed_face_list :: string where
  "closed_face_list = ''{'' @ [CR, LF] @ ''*MESH_FACE 0: A: 0 B: 1 C: 2'' @ [CR, LF]
      @ ''*MESH_FACE 3: A: 4 B: 5 C: 6'' @ [CR, LF] @ ''}'' @ [CR, LF]"

section \<open>Theorems: face synthesis\<close>

lemmas synth_eval = primitive_faces_def synth_faces_def line_loop_or_strip_def num_vertices_def for_range.simps ebind_def
  GetUInt_def implied_index_def SetFace_def new_faces_def face_index_def u32_def faces_list_def

text \<open>
  The line modes of the expansion table behave as stated: line-loop over the indices
  \<open>[0,1,2]\<close> gives the faces \<open>(0,1), (1,2), (2,0)\<close>, and lines over the odd-length
  \<open>[0,1,2]\<close> gives the single face \<open>(0,1)\<close> with one warning.
\<close>

lemma line_loop_three_indices:
  "map_sum id (\<lambda>(fs, ws). (faces_list fs, ws))
     (primitive_faces \<lparr> mode = PrimitiveMode_LINE_LOOP, position_count = Some 3,
                        indices = Some [0, 1, 2], material = None \<rparr>)
   = Inr ([Some [0, 1], Some [1, 2], Some [2, 0]], [])"
  by (simp add: synth_eval upt_rec)

lemma lines_three_indices:
  "map_sum id (\<lambda>(fs, ws). (faces_list fs, ws))
     (primitive_faces \<lparr> mode = PrimitiveMode_LINES, position_count = Some 3,
                        indices = Some [0, 1, 2], material = None \<rparr>)
   = Inr ([Some [0, 1]], [warn_LINES])"
  by (simp add: synth_eval upt_rec)

text \<open>
  A triangle fan of four or more indices never produces faces: the loop builds face
  \<open>i - 2\<close> from \<open>faces[i - 1]\<close>, a slot that is not written yet (or lies behind the
  array), where the line-strip loop reads the previous face \<open>faces[i - 2]\<close> for
  face \<open>i - 1\<close>.
\<close>

lemma triangle_fan_fails:
  assumes "4 \<le> count"
  shows "\<exists>e. synth_faces PrimitiveMode_TRIANGLE_FAN count get = Inl e"
  using assms
  apply (cases "get 0"; cases "get 1"; cases "get 2")
         apply (simp_all add: synth_faces_def ebind_def SetFace_def new_faces_def)
  apply (auto simp: for_range.simps [of 3] face_index_def ebind_def)
  done

lemma triangle_fan_no_indices:
  "primitive_faces \<lparr> mode = PrimitiveMode_TRIANGLE_FAN, position_count = Some 5,
                     indices = None, material = None \<rparr> = Inl InvalidAccess"
  by (simp add: synth_eval)

text \<open>
  C1 (the code at the failing input). The claim: triangle-fan over the index sequence
  \<open>[0,1,2,3,4]\<close> yields exactly the faces \<open>(0,1,2), (0,2,3), (0,3,4)\<close>. The code: after
  face 0, the first round of the loop (\<open>i = 3\<close>) reads \<open>faces[2].mIndices[2]\<close> of a
  face that has no index array yet, so no faces are produced.
\<close>

theorem triangle_fan_five_indices:
  "primitive_faces \<lparr> mode = PrimitiveMode_TRIANGLE_FAN, position_count = Some 5,
                     indices = Some [0, 1, 2, 3, 4], material = None \<rparr> = Inl InvalidAccess"
  by (simp add: synth_eval)

section \<open>Theorems: the mesh offset table\<close>

lemma u32_nat: "n < 2 ^ 32 \<Longrightarrow> u32 (int n) = n"
  by (simp add: u32_def)

text \<open>
  When the import of the meshes returns: a source mesh whose extensions pass the check
  and whose primitives all get faces is imported, and no other.
\<close>

lemma import_primitive_ok:
  "\<not> isl (primitive_faces prim) \<Longrightarrow> \<exists>aim ws. import_primitive m p prim = Inr (aim, ws)"
  by (cases "primitive_faces prim") (auto simp: import_primitive_def ebind_def Let_def split: prod.splits)

lemma import_primitives_ok:
  "\<forall>prim \<in> set ps. \<not> isl (primitive_faces prim) \<Longrightarrow>
   \<exists>aims ws. import_primitives m p ps = Inr (aims, ws)"
proof (induction ps arbitrary: p)
  case Nil
  then show ?case by simp
next
  case (Cons prim ps)
  from Cons.prems obtain aim ws where a: "import_primitive m p prim = Inr (aim, ws)"
    using import_primitive_ok by fastforce
  from Cons.prems Cons.IH [of "p + 1"] obtain aims ws'
    where b: "import_primitives m (p + 1) ps = Inr (aims, ws')"
    by auto
  show ?case using a b by (simp add: ebind_def)
qed

lemma import_mesh_loop_ok:
  "\<forall>m \<in> set ms. mesh_ok o3dgc m \<Longrightarrow>
   \<exists>r. import_mesh_loop o3dgc ms k offs out ws = Inr r"
proof (induction ms arbitrary: k offs out ws)
  case Nil
  then show ?case by simp
next
  case (Cons m ms)
  from Cons.prems have ok: "mesh_ok o3dgc m" and oks: "\<forall>m \<in> set ms. mesh_ok o3dgc m"
    by simp_all
  from ok have ext: "(if o3dgc then check_extensions m (Extension m) else Inr ()) = Inr ()"
    by (simp add: mesh_ok_def)
  from ok obtain aims ws1 where pr: "import_primitives m 0 (primitives m) = Inr (aims, ws1)"
    using import_primitives_ok [of "primitives m" m 0] by (auto simp: mesh_ok_def)
  from Cons.IH [OF oks] show ?case
    using ext pr by (simp add: ebind_def)
qed

lemma ImportMeshes_returns:
  assumes "\<forall>m \<in> set srcs. mesh_ok o3dgc m"
  shows "\<exists>offs out ws. ImportMeshes o3dgc srcs = Inr (offs, out, ws)"
proof -
  from import_mesh_loop_ok [OF assms, of 0 "[]" "[]" "[]"]
  obtain k offs out ws where "import_mesh_loop o3dgc srcs 0 [] [] [] = Inr (k, offs, out, ws)"
    by (metis prod_cases4)
  then show ?thesis by (simp add: ImportMeshes_def ebind_def)
qed

text \<open>
  What a run of the loops that returns has built: one output mesh for each primitive, in
  order, and the running counter before each source mesh.
\<close>

lemma import_primitives_result:
  "import_primitives m p0 ps = Inr (aims, ws) \<Longrightarrow>
   length aims = length ps
   \<and> (\<forall>j < length ps. \<exists>w. import_primitive m (p0 + j) (ps ! j) = Inr (aims ! j, w))"
proof (induction ps arbitrary: p0 aims ws)
  case Nil
  then show ?case by simp
next
  case (Cons prim ps)
  from Cons.prems obtain aim w1 aims' ws' where
    a: "import_primitive m p0 prim = Inr (aim, w1)" and
    b: "import_primitives m (p0 + 1) ps = Inr (aims', ws')" and
    c: "aims = aim # aims'"
    by (auto simp: ebind_def split: sum.splits prod.splits)
  from Cons.IH [OF b] have l: "length aims' = length ps" and
    n: "\<And>j. j < length ps \<Longrightarrow> \<exists>w. import_primitive m (p0 + 1 + j) (ps ! j) = Inr (aims' ! j, w)"
    by auto
  have "\<exists>w. import_primitive m (p0 + j) ((prim # ps) ! j) = Inr (aims ! j, w)"
    if "j < length (prim # ps)" for j
  proof (cases j)
    case 0
    then show ?thesis using a c by simp
  next
    case (Suc j')
    with that have "j' < length ps" by simp
    from n [OF this] Suc c show ?thesis by simp
  qed
  then show ?case using c l by simp
qed

lemma import_mesh_loop_result:
  "import_mesh_loop o3dgc ms k offs out ws = Inr (k', offs', out', ws') \<Longrightarrow>
   k + num_primitives ms < 2 ^ 32 \<Longrightarrow>
   k' = k + num_primitives ms
   \<and> offs' = offs @ map (\<lambda>i. k + num_primitives (take i ms)) [0..<length ms]
   \<and> length out' = length out + num_primitives ms
   \<and> (\<forall>j < length out. out' ! j = out ! j)
   \<and> (\<forall>i < length ms. \<forall>p < length (primitives (ms ! i)).
         \<exists>w. import_primitive (ms ! i) p (primitives (ms ! i) ! p)
               = Inr (out' ! (length out + num_primitives (take i ms) + p), w))"
proof (induction ms arbitrary: k offs out ws)
  case Nil
  then show ?case by simp
next
  case (Cons m ms)
  let ?n = "length (primitives m)"
  from Cons.prems(1) obtain aims ws1 where
    pr: "import_primitives m 0 (primitives m) = Inr (aims, ws1)" and
    rest: "import_mesh_loop o3dgc ms (u32 (int k + int ?n)) (offs @ [k]) (out @ aims) (ws @ ws1)
             = Inr (k', offs', out', ws')"
    by (auto simp: ebind_def split: sum.splits prod.splits if_splits)
  from import_primitives_result [OF pr] have la: "length aims = ?n" and
    na: "\<And>j. j < ?n \<Longrightarrow> \<exists>w. import_primitive m j (primitives m ! j) = Inr (aims ! j, w)"
    by auto
  from Cons.prems(2) have bound: "(k + ?n) + num_primitives ms < 2 ^ 32" by simp
  then have k': "u32 (int k + int ?n) = k + ?n"
    using u32_nat [of "k + ?n"] by simp
  from Cons.IH [OF rest [unfolded k'] bound] have
    1: "k' = k + ?n + num_primitives ms" and
    2: "offs' = (offs @ [k]) @ map (\<lambda>i. k + ?n + num_primitives (take i ms)) [0..<length ms]" and
    3: "length out' = length (out @ aims) + num_primitives ms" and
    4: "\<And>j. j < length (out @ aims) \<Longrightarrow> out' ! j = (out @ aims) ! j" and
    5: "\<And>i p. i < length ms \<Longrightarrow> p < length (primitives (ms ! i)) \<Longrightarrow>
          \<exists>w. import_primitive (ms ! i) p (primitives (ms ! i) ! p)
                = Inr (out' ! (length (out @ aims) + num_primitives (take i ms) + p), w)"
    by auto
  have idx: "map (\<lambda>i. k + num_primitives (take i (m # ms))) [0..<length (m # ms)] =
             k # map (\<lambda>i. k + ?n + num_primitives (take i ms)) [0..<length ms]"
  proof -
    have "[0..<length (m # ms)] = 0 # map Suc [0..<length ms]"
      by (simp add: upt_conv_Cons map_Suc_upt del: upt_Suc)
    then show ?thesis by (simp add: comp_def add.assoc del: upt_Suc)
  qed
  have old: "out' ! j = out ! j" if "j < length out" for j
    using 4 [of j] that by (simp add: nth_append)
  have new: "\<exists>w. import_primitive ((m # ms) ! i) p (primitives ((m # ms) ! i) ! p)
               = Inr (out' ! (length out + num_primitives (take i (m # ms)) + p), w)"
    if i: "i < length (m # ms)" and p: "p < length (primitives ((m # ms) ! i))" for i p
  proof (cases i)
    case 0
    with p have "p < ?n" by simp
    moreover from this la have "out' ! (length out + p) = aims ! p"
      using 4 [of "length out + p"] by (simp add: nth_append)
    ultimately show ?thesis using na [of p] 0 by simp
  next
    case (Suc i')
    with i p have "i' < length ms" "p < length (primitives (ms ! i'))" by simp_all
    from 5 [OF this] Suc la show ?thesis by (simp add: add.assoc)
  qed
  show ?case
    using 1 2 3 la idx old new by (simp add: add.assoc del: upt_Suc)
qed

lemma num_primitives_take_Suc:
  "i < length ms \<Longrightarrow>
   num_primitives (take (Suc i) ms) = num_primitives (take i ms) + length (primitives (ms ! i))"
  by (simp add: take_Suc_conv_app_nth)

lemma node_meshes_single:
  "i + 1 < length offs \<Longrightarrow> offs ! (i + 1) = offs ! i + n \<Longrightarrow>
   node_meshes offs [i] = Inr [offs ! i ..< offs ! (i + 1)]"
  by (simp add: node_meshes_def)

text \<open>
  C4 as stated fails where the import of the meshes aborts: with the Open3DGC check
  compiled in, a source mesh that uses the compression and has three primitives raises
  the fatal error before any offset is recorded, so no offset table arises.
\<close>

theorem ImportMeshes_aborts_counterexample:
  "ImportMeshes True [compressed_mesh] = Inl (DeadlyImportError
     ''GLTF: When using Open3DGC compression then only one primitive per mesh are allowed.'')"
  by (simp add: ImportMeshes_def compressed_mesh_def ebind_def)

text \<open>
  C4, amended. Whenever \<open>ImportMeshes\<close> returns (with fewer than \<open>2 ^ 32\<close> output
  meshes, the counter being an \<open>unsigned int\<close>): the offset table has one entry for each
  source mesh and a final sentinel; entry \<open>i\<close> is the number of output meshes appended
  for the source meshes before \<open>i\<close> (the running counter); the sentinel is the total
  number of output meshes; the output mesh at \<open>offs ! i + p\<close> is the one built from
  primitive \<open>p\<close> of source mesh \<open>i\<close>, so there is one for each primitive; and a node
  referencing source mesh \<open>i\<close> receives exactly the contiguous indices from \<open>offs ! i\<close>
  up to, excluding, \<open>offs ! (i + 1)\<close>, one for each primitive of the mesh.
\<close>

theorem ImportMeshes_offset_table:
  assumes run: "ImportMeshes o3dgc srcs = Inr (offs, out, ws)"
    and bound: "num_primitives srcs < 2 ^ 32"
  shows "length offs = length srcs + 1
      \<and> (\<forall>i \<le> length srcs. offs ! i = num_primitives (take i srcs))
      \<and> length out = num_primitives srcs
      \<and> last offs = length out
      \<and> (\<forall>i < length srcs. \<forall>p < length (primitives (srcs ! i)).
            \<exists>w. import_primitive (srcs ! i) p (primitives (srcs ! i) ! p)
                  = Inr (out ! (offs ! i + p), w))
      \<and> (\<forall>i < length srcs.
            offs ! (i + 1) = offs ! i + length (primitives (srcs ! i))
            \<and> node_meshes offs [i] = Inr [offs ! i ..< offs ! (i + 1)])"
proof -
  let ?table = "map (\<lambda>i. num_primitives (take i srcs)) [0..<length srcs]"
  from run obtain k offs0 where
    loop: "import_mesh_loop o3dgc srcs 0 [] [] [] = Inr (k, offs0, out, ws)"
    and offs: "offs = offs0 @ [k]"
    by (auto simp: ImportMeshes_def ebind_def split: sum.splits prod.splits)
  from import_mesh_loop_result [OF loop] bound have
    k: "k = num_primitives srcs" and
    offs0: "offs0 = ?table" and
    len: "length out = num_primitives srcs" and
    prim: "\<And>i p. i < length srcs \<Longrightarrow> p < length (primitives (srcs ! i)) \<Longrightarrow>
          \<exists>w. import_primitive (srcs ! i) p (primitives (srcs ! i) ! p)
                = Inr (out ! (num_primitives (take i srcs) + p), w)"
    by auto
  have nth: "offs ! i = num_primitives (take i srcs)" if "i \<le> length srcs" for i
    using that by (cases "i = length srcs") (simp_all add: offs offs0 k nth_append)
  have step: "offs ! (i + 1) = offs ! i + length (primitives (srcs ! i))" if "i < length srcs" for i
    using that nth [of i] nth [of "Suc i"] num_primitives_take_Suc [of i srcs] by simp
  have node: "node_meshes offs [i] = Inr [offs ! i ..< offs ! (i + 1)]" if "i < length srcs" for i
  proof (rule node_meshes_single)
    show "i + 1 < length offs" using that by (simp add: offs offs0)
    show "offs ! (i + 1) = offs ! i + length (primitives (srcs ! i))" using step [OF that] .
  qed
  have tie: "\<exists>w. import_primitive (srcs ! i) p (primitives (srcs ! i) ! p)
                  = Inr (out ! (offs ! i + p), w)"
    if "i < length srcs" "p < length (primitives (srcs ! i))" for i p
    using prim [OF that] nth [of i] that(1) by simp
  have l: "length offs = length srcs + 1" by (simp add: offs offs0)
  have s: "last offs = length out" by (simp add: offs k len)
  show ?thesis using l nth len s tie step node by blast
qed

lemma import_primitive_name:
  "import_primitive m p prim = Inr (aim, w) \<Longrightarrow>
   mName aim = (if length (primitives m) > 1 then mesh_id m @ CHR ''-'' # itoa10 (int p)
                else mesh_id m)"
  by (auto simp: import_primitive_def ebind_def Let_def split: sum.splits prod.splits)

lemma points1_ok: "\<not> isl (primitive_faces points1)"
  by (simp add: primitive_faces_def points1_def synth_faces_def num_vertices_def
      for_range.simps ebind_def implied_index_def SetFace_def new_faces_def)

text \<open>
  A source mesh of 3 primitives starting at output offset 5: a node referencing it gets
  the mesh indices 5, 6, 7, and the output mesh 6 is the one of its primitive 1.
\<close>

theorem ImportMeshes_offset_table_witness:
  "\<exists>offs out ws. ImportMeshes False two_meshes = Inr (offs, out, ws)
     \<and> offs = [0, 5, 8] \<and> length out = 8 \<and> node_meshes offs [1] = Inr [5, 6, 7]
     \<and> mName (out ! 6) = ''b-1''"
proof -
  have ok: "\<forall>m \<in> set two_meshes. mesh_ok False m"
    by (simp add: two_meshes_def mesh_ok_def points1_ok)
  from ImportMeshes_returns [OF ok] obtain offs out ws where
    r: "ImportMeshes False two_meshes = Inr (offs, out, ws)" by blast
  have bound: "num_primitives two_meshes < 2 ^ 32"
    by (simp add: two_meshes_def)
  from ImportMeshes_offset_table [OF r bound] have
    l: "length offs = length two_meshes + 1"
    and n: "\<forall>i \<le> length two_meshes. offs ! i = num_primitives (take i two_meshes)"
    and o: "length out = num_primitives two_meshes"
    and t: "\<forall>i < length two_meshes. \<forall>p < length (primitives (two_meshes ! i)).
            \<exists>w. import_primitive (two_meshes ! i) p (primitives (two_meshes ! i) ! p)
                  = Inr (out ! (offs ! i + p), w)"
    and m: "\<forall>i < length two_meshes.
              offs ! (i + 1) = offs ! i + length (primitives (two_meshes ! i))
              \<and> node_meshes offs [i] = Inr [offs ! i ..< offs ! (i + 1)]"
    by blast+
  have l3: "length offs = 3" using l by (simp add: two_meshes_def)
  have n0: "offs ! 0 = 0" using n [rule_format, of 0] by simp
  have n1: "offs ! 1 = 5" using n [rule_format, of 1] by (simp add: two_meshes_def)
  have n2: "offs ! 2 = 8" using n [rule_format, of 2] by (simp add: two_meshes_def)
  have offs: "offs = [0, 5, 8]"
    using l3 n0 n1 n2 by (auto simp: list_eq_iff_nth_eq less_Suc_eq numeral_3_eq_3 numeral_2_eq_2)
  have "node_meshes offs [1] = Inr [5 ..< 8]"
    using m [rule_format, of 1] n1 n2 by (simp add: two_meshes_def)
  also have "[5 ..< 8] = [5, 6, 7 :: nat]" by (simp add: upt_rec)
  finally have nm: "node_meshes offs [1] = Inr [5, 6, 7]" .
  from t [rule_format, of 1 1] n1 obtain w where
    "import_primitive (two_meshes ! 1) 1 points1 = Inr (out ! 6, w)"
    by (auto simp: two_meshes_def)
  from import_primitive_name [OF this] have nm6: "mName (out ! 6) = ''b-1''"
    by (simp add: two_meshes_def itoa10_def digits10.simps)
  show ?thesis using r offs o nm nm6 by (simp add: two_meshes_def)
qed

section \<open>Theorems: node transformation\<close>

lemma mat_mul_identity_left: "mat_mul identity4 m = m"
  by (cases m) (auto simp: identity4_def)

lemma mat_mul_identity_right: "mat_mul m identity4 = m"
  by (cases m) (auto simp: identity4_def)

text \<open>
  C5 as stated fails: for a node with translation \<open>(1,0,0)\<close> and scale \<open>(2,1,1)\<close>
  (no matrix, no rotation) the code yields scale * translation, whose entry \<open>a4\<close> is 2,
  while translation * scale * rotation * identity has \<open>a4 = 1\<close>.
\<close>

theorem node_transform_order_counterexample:
  "node_transform moved_scaled_node \<noteq> spec_transform moved_scaled_node"
  by (simp add: node_transform_def spec_transform_def moved_scaled_node_def plain_node_def identity4_def)

text \<open>
  C5, amended. The output transform is the explicit matrix when one is present, whatever
  the components are; otherwise it is rotation * (scale * (translation * identity)), an
  absent component being the identity.
\<close>

theorem node_transform_composition:
  "node_transform node =
     (case matrix node of
        Some m \<Rightarrow> m
      | None \<Rightarrow>
          mat_mul (case rotation node of Some r \<Rightarrow> r | None \<Rightarrow> identity4)
            (mat_mul (case scale node of Some v \<Rightarrow> Scaling v | None \<Rightarrow> identity4)
               (mat_mul (case translation node of Some v \<Rightarrow> Translation v | None \<Rightarrow> identity4)
                  identity4)))"
  by (simp add: node_transform_def mat_mul_identity_left mat_mul_identity_right Let_def
      split: option.splits)

section \<open>Theorems: embedded textures\<close>







section \<open>Theorems: the node tree\<close>

lemma node_meshes_ok:
  "\<forall>idx \<in> set refs. idx + 1 < length offs \<and> offs ! idx \<le> offs ! (idx + 1) \<Longrightarrow>
   \<exists>ms. node_meshes offs refs = Inr ms"
proof -
  assume a: "\<forall>idx \<in> set refs. idx + 1 < length offs \<and> offs ! idx \<le> offs ! (idx + 1)"
  have "int (length (concat (map (\<lambda>idx. [offs ! idx ..< offs ! (idx + 1)]) refs)))
        = (\<Sum>idx \<leftarrow> refs. int (offs ! (idx + 1)) - int (offs ! idx))"
    using a by (induction refs) (auto simp: of_nat_diff)
  then show ?thesis using a by (simp add: node_meshes_def Let_def)
qed

lemma ImportNode_ok:
  "refs_ok offs n \<Longrightarrow> \<exists>a. ImportNode offs n = Inr a"
  "\<forall>c \<in> set cs. refs_ok offs c \<Longrightarrow>
     \<exists>kids. ImportNode_children offs cs = Inr kids \<and> length kids = length cs"
proof (induction offs n and offs cs rule: ImportNode_ImportNode_children.induct)
  case (1 offs node cs)
  then obtain kids where k: "ImportNode_children offs cs = Inr kids" by auto
  from "1.prems" obtain ms where m: "node_meshes offs (meshes node) = Inr ms"
    using node_meshes_ok [of "meshes node" offs] by auto
  show ?case using k m by (simp add: ebind_def)
next
  case (2 offs)
  then show ?case by simp
next
  case (3 offs c cs)
  then obtain a where a: "ImportNode offs c = Inr a" by auto
  from 3 obtain kids where k: "ImportNode_children offs cs = Inr kids" "length kids = length cs"
    by auto
  show ?case using a k by (simp add: ebind_def)
qed

lemma ImportNode_children_single:
  "ImportNode_children offs [r] = Inr kids \<Longrightarrow> ImportNode offs r = Inr (kids ! 0)"
  by (cases "ImportNode offs r") (auto simp: ebind_def)

text \<open>
  C9 as stated fails: a scene that declares no root node leaves the output without a
  root node (and so does an asset without a scene).
\<close>

theorem ImportNodes_no_root_counterexample:
  "ImportNodes [0] (Some []) = Inr None"
  by (simp add: ImportNodes_def)

text \<open>
  C9, amended. With mesh references inside the offset table: when the scene declares at
  least one root node, the output has exactly one root, the import of the sole declared
  root when exactly one is declared, and otherwise a synthesized node \<open>ROOT\<close> (identity
  transformation, no meshes) owning the imports of all declared roots, in order, as its
  children. Without a scene, or with a scene declaring no root node, no root node is set.
\<close>

theorem ImportNodes_root:
  assumes "\<forall>r \<in> set rootNodes. refs_ok offs r"
  shows "ImportNodes offs None = Inr None
     \<and> (rootNodes = [] \<longrightarrow> ImportNodes offs (Some rootNodes) = Inr None)
     \<and> (rootNodes \<noteq> [] \<longrightarrow>
          (\<exists>root kids. ImportNodes offs (Some rootNodes) = Inr (Some root)
             \<and> ImportNode_children offs rootNodes = Inr kids
             \<and> length kids = length rootNodes
             \<and> (length rootNodes = 1 \<longrightarrow> root = kids ! 0)
             \<and> (length rootNodes > 1 \<longrightarrow> root = aiNode ''ROOT'' identity4 [] kids)))"
proof -
  from assms obtain kids where
    k: "ImportNode_children offs rootNodes = Inr kids" "length kids = length rootNodes"
    using ImportNode_ok(2) by blast
  have one: "ImportNodes offs (Some rootNodes) = Inr (Some (kids ! 0))" if "length rootNodes = 1"
  proof -
    from that obtain r where r: "rootNodes = [r]" by (cases rootNodes) auto
    with k have "ImportNode offs r = Inr (kids ! 0)"
      using ImportNode_children_single by simp
    with r show ?thesis by (simp add: ImportNodes_def ebind_def)
  qed
  have many: "ImportNodes offs (Some rootNodes) = Inr (Some (aiNode ''ROOT'' identity4 [] kids))"
    if "length rootNodes > 1"
    using that k by (simp add: ImportNodes_def ebind_def)
  have "rootNodes \<noteq> [] \<Longrightarrow> length rootNodes = 1 \<or> length rootNodes > 1"
    by (cases rootNodes) auto
  then show ?thesis
    using one many k by (auto simp: ImportNodes_def)
qed

text \<open>Two declared roots are wrapped; a single declared root is the root.\<close>

theorem ImportNodes_root_witness:
  "ImportNodes [0, 1] (Some two_roots) =
     Inr (Some (aiNode ''ROOT'' identity4 []
       [aiNode ''a'' identity4 [] [],
        aiNode ''b'' identity4 [0] [aiNode ''c'' identity4 [] []]]))
   \<and> ImportNodes [0, 1] (Some [Node (plain_node ''a'') []]) = Inr (Some (aiNode ''a'' identity4 [] []))"
proof -
  have ok: "\<forall>r \<in> set two_roots. refs_ok [0, 1] r"
    by (simp add: two_roots_def plain_node_def)
  have ok1: "\<forall>r \<in> set [Node (plain_node ''a'') []]. refs_ok [0, 1] r"
    by (simp add: plain_node_def)
  have kids: "ImportNode_children [0, 1] two_roots =
     Inr [aiNode ''a'' identity4 [] [],
          aiNode ''b'' identity4 [0] [aiNode ''c'' identity4 [] []]]"
    by (simp add: two_roots_def plain_node_def ebind_def node_meshes_def node_transform_def)
  have kid1: "ImportNode_children [0, 1] [Node (plain_node ''a'') []] = Inr [aiNode ''a'' identity4 [] []]"
    by (simp add: plain_node_def ebind_def node_meshes_def node_transform_def)
  have ne: "two_roots \<noteq> []" "length two_roots > 1" by (simp_all add: two_roots_def)
  from ImportNodes_root [OF ok] ne kids have a: "ImportNodes [0, 1] (Some two_roots) =
     Inr (Some (aiNode ''ROOT'' identity4 []
       [aiNode ''a'' identity4 [] [],
        aiNode ''b'' identity4 [0] [aiNode ''c'' identity4 [] []]]))"
    by auto
  from ImportNodes_root [OF ok1] kid1
  have b: "ImportNodes [0, 1] (Some [Node (plain_node ''a'') []]) = Inr (Some (aiNode ''a'' identity4 [] []))"
    by auto
  show ?thesis using a b by simp
qed

section \<open>Theorems: CanRead\<close>



section \<open>Unfolding the parser on a concrete buffer\<close>

lemmas scan_eval = parser_at_def SkipSpaces_def strtoul10_def TokenMatch_def cur_def advance_def
  IsSpace_def IsLineEnd_def IsSpaceOrNewLine_def is_digit_def digit_value_def skip_to_star_def
  LogWarning_def line_message_def bail_def count_line_def

lemmas face_eval = ParseLV4MeshFace_def face_slot_def parse_smoothing_def parse_mtlid_def
  smoothing_loop.simps smoothing_value_def new_Face_def Let_def

lemmas handler_eval = run_handler_def handler_loop_def AI_ASE_HANDLE_SECTION_def
  AI_ASE_HANDLE_TOP_LEVEL_SECTION_def LogError_def SkipToNextToken.simps


section \<open>Theorems: the readers only move the cursor forward\<close>

text \<open>
  What each reader leaves of the buffer is a suffix of what it was given; so the keyword
  chains of the face list block and of the scene block only consume input.
\<close>

lemma SkipSpaces_suffix: "suffix (input (snd (SkipSpaces st))) (input st)"
  by (simp add: SkipSpaces_def Let_def suffix_dropWhile)

lemma strtoul10_suffix: "suffix (input (snd (strtoul10 st))) (input st)"
  by (simp add: strtoul10_def suffix_dropWhile)

lemma TokenMatch_suffix: "suffix (input (snd (TokenMatch token st))) (input st)"
  by (simp add: TokenMatch_def Let_def suffix_drop)

lemma advance_suffix: "suffix (input (advance st)) (input st)"
  by (simp add: advance_def suffix_tl)

lemma skip_to_star_suffix: "suffix (input (skip_to_star st)) (input st)"
  by (simp add: skip_to_star_def suffix_dropWhile)

lemma SkipToNextToken_suffix: "suffix (input (snd (SkipToNextToken st))) (input st)"
proof (induction st rule: SkipToNextToken.induct)
  case (1 st)
  show ?case
  proof (cases "input st")
    case Nil
    then show ?thesis by (subst SkipToNextToken.simps) simp
  next
    case (Cons me rest)
    show ?thesis
    proof (cases "me = CHR ''*'' \<or> me = CHR ''}'' \<or> me = CHR ''{'' \<or> me = NUL")
      case True
      with Cons show ?thesis
        by (subst SkipToNextToken.simps) (auto simp: count_line_def Let_def)
    next
      case False
      with Cons "1.IH" [OF Cons refl] show ?thesis
        by (subst SkipToNextToken.simps) (auto simp: count_line_def Let_def intro: suffix_ConsI)
    qed
  qed
qed

lemma bail_suffix: "suffix (input (fst (bail st msg out))) (input st)"
  using SkipToNextToken_suffix [of "LogWarning st msg"] by (simp add: bail_def LogWarning_def)

lemma smoothing_value_suffix:
  "suffix (input (fst (smoothing_value s))) (input (fst s))"
  using strtoul10_suffix [of "fst s"] strtoul10_suffix [of "snd (strtoul10 (fst s))"]
  by (cases s) (auto simp: smoothing_value_def LogWarning_def split: prod.splits
      intro: suffix_order.trans)

lemma smoothing_loop_suffix:
  "suffix (input (fst (smoothing_loop s))) (input (fst s))"
proof (induction s rule: smoothing_loop.induct)
  case (1 s)
  obtain st1 out1 where v: "smoothing_value s = (st1, out1)" by (cases "smoothing_value s")
  let ?st2 = "snd (SkipSpaces st1)"
  have "suffix (input st1) (input (fst s))"
    using smoothing_value_suffix [of s] v by simp
  with SkipSpaces_suffix [of st1] have a: "suffix (input ?st2) (input (fst s))"
    by (rule suffix_order.trans)
  show ?case
  proof (cases "cur ?st2 \<noteq> CHR '',''")
    case True
    then show ?thesis using v a by (subst smoothing_loop.simps) (simp add: Let_def)
  next
    case False
    from "1.IH" [OF v [symmetric] refl refl False]
    have "suffix (input (fst (smoothing_loop (snd (SkipSpaces (advance ?st2)), out1))))
            (input (snd (SkipSpaces (advance ?st2))))" by simp
    also have "suffix (input (snd (SkipSpaces (advance ?st2)))) (input (advance ?st2))"
      by (rule SkipSpaces_suffix)
    also have "suffix (input (advance ?st2)) (input ?st2)"
      by (rule advance_suffix)
    also note a
    finally show ?thesis
      using False v by (subst smoothing_loop.simps) (simp add: Let_def)
  qed
qed

lemma face_slot_suffix:
  "face_slot (st, out) = Inl r \<or> face_slot (st, out) = Inr r \<Longrightarrow>
   suffix (input (fst r)) (input st)"
proof -
  assume a: "face_slot (st, out) = Inl r \<or> face_slot (st, out) = Inr r"
  obtain ok1 s1 where 1: "SkipSpaces st = (ok1, s1)" by (cases "SkipSpaces st")
  obtain ok2 s2 where 2: "SkipSpaces (advance s1) = (ok2, s2)" by (cases "SkipSpaces (advance s1)")
  obtain ok3 s3 where 3: "SkipSpaces (advance s2) = (ok3, s3)" by (cases "SkipSpaces (advance s2)")
  obtain v s4 where 4: "strtoul10 s3 = (v, s4)" by (cases "strtoul10 s3")
  have l1: "suffix (input s1) (input st)" using SkipSpaces_suffix [of st] 1 by simp
  have "suffix (input s2) (input (advance s1))" using SkipSpaces_suffix [of "advance s1"] 2 by simp
  then have l2: "suffix (input s2) (input st)"
    using advance_suffix [of s1] l1 by (blast intro: suffix_order.trans)
  have "suffix (input s3) (input (advance s2))" using SkipSpaces_suffix [of "advance s2"] 3 by simp
  then have l3: "suffix (input s3) (input st)"
    using advance_suffix [of s2] l2 by (blast intro: suffix_order.trans)
  have b4: "suffix (input s4) (input st)"
    using strtoul10_suffix [of s3] 4 l3 by (auto intro: suffix_order.trans)
  have b1: "suffix (input (fst (bail s1 msg out))) (input st)" for msg
    using bail_suffix [of s1 msg out] l1 by (rule suffix_order.trans)
  have b2: "suffix (input (fst (bail s2 msg out))) (input st)" for msg
    using bail_suffix [of s2 msg out] l2 by (rule suffix_order.trans)
  have b3: "suffix (input (fst (bail s3 msg out))) (input st)" for msg
    using bail_suffix [of s3 msg out] l3 by (rule suffix_order.trans)
  from a show ?thesis
    using b1 b2 b3 b4
    by (auto simp: face_slot_def 1 2 3 4 Let_def split: if_splits)
qed

lemma parse_smoothing_suffix:
  "parse_smoothing (st, out) = Inl r \<or> parse_smoothing (st, out) = Inr r \<Longrightarrow>
   suffix (input (fst r)) (input st)"
proof -
  assume a: "parse_smoothing (st, out) = Inl r \<or> parse_smoothing (st, out) = Inr r"
  obtain matched s1 where 1: "TokenMatch ''*MESH_SMOOTHING'' st = (matched, s1)"
    by (cases "TokenMatch ''*MESH_SMOOTHING'' st")
  obtain ok s2 where 2: "SkipSpaces s1 = (ok, s2)" by (cases "SkipSpaces s1")
  have l1: "suffix (input s1) (input st)"
    using TokenMatch_suffix [of "''*MESH_SMOOTHING''" st] 1 by simp
  have l2: "suffix (input s2) (input st)"
    using SkipSpaces_suffix [of s1] 2 l1 by (auto intro: suffix_order.trans)
  have b: "suffix (input (fst (bail s2 msg out))) (input st)" for msg
    using bail_suffix [of s2 msg out] l2 by (rule suffix_order.trans)
  have sl: "suffix (input (fst (smoothing_loop (s2, out)))) (input st)"
    using smoothing_loop_suffix [of "(s2, out)"] l2 by (auto intro: suffix_order.trans)
  from a show ?thesis
    using l1 b sl by (auto simp: parse_smoothing_def 1 2 Let_def split: if_splits)
qed

lemma parse_mtlid_suffix:
  "suffix (input (fst (parse_mtlid (st, out)))) (input st)"
proof -
  obtain matched s1 where 1: "TokenMatch ''*MESH_MTLID'' st = (matched, s1)"
    by (cases "TokenMatch ''*MESH_MTLID'' st")
  obtain ok s2 where 2: "SkipSpaces s1 = (ok, s2)" by (cases "SkipSpaces s1")
  obtain v s3 where 3: "strtoul10 s2 = (v, s3)" by (cases "strtoul10 s2")
  have l1: "suffix (input s1) (input st)"
    using TokenMatch_suffix [of "''*MESH_MTLID''" st] 1 by simp
  have l2: "suffix (input s2) (input st)"
    using SkipSpaces_suffix [of s1] 2 l1 by (auto intro: suffix_order.trans)
  have l3: "suffix (input s3) (input st)"
    using strtoul10_suffix [of s2] 3 l2 by (auto intro: suffix_order.trans)
  have b: "suffix (input (fst (bail s2 msg out))) (input st)" for msg
    using bail_suffix [of s2 msg out] l2 by (rule suffix_order.trans)
  show ?thesis
    using l1 l3 b by (auto simp: parse_mtlid_def 1 2 3 Let_def)
qed

lemma face_slots_suffix:
  assumes "suffix (input (fst s)) buf"
  shows "(case face_slot s of Inl r \<Rightarrow> suffix (input (fst r)) buf
          | Inr r \<Rightarrow> suffix (input (fst r)) buf)"
  using assms face_slot_suffix [of "fst s" "snd s"]
  by (cases "face_slot s") (auto intro: suffix_order.trans)

lemma ParseLV4MeshFace_suffix:
  "suffix (input (fst (ParseLV4MeshFace (st, out)))) (input st)"
proof -
  let ?n = "input st"
  obtain ok1 s1 where 1: "SkipSpaces st = (ok1, s1)" by (cases "SkipSpaces st")
  obtain v s2 where 2: "strtoul10 s1 = (v, s2)" by (cases "strtoul10 s1")
  obtain ok2 s3 where 3: "SkipSpaces s2 = (ok2, s3)" by (cases "SkipSpaces s2")
  let ?out1 = "out\<lparr> iFace := v \<rparr>"
  let ?s4 = "if cur s3 = CHR '':'' then advance s3 else s3"
  have l1: "suffix (input s1) ?n" using SkipSpaces_suffix [of st] 1 by simp
  have l2: "suffix (input s2) ?n"
    using strtoul10_suffix [of s1] 2 l1 by (auto intro: suffix_order.trans)
  have l3: "suffix (input s3) ?n"
    using SkipSpaces_suffix [of s2] 3 l2 by (auto intro: suffix_order.trans)
  have l4: "suffix (input ?s4) ?n"
    using advance_suffix [of s3] l3 by (auto intro: suffix_order.trans)
  have b1: "suffix (input (fst (bail s1 msg out))) ?n" for msg
    using bail_suffix [of s1 msg out] l1 by (rule suffix_order.trans)
  have b3: "suffix (input (fst (bail s3 msg ?out1))) ?n" for msg
    using bail_suffix [of s3 msg ?out1] l3 by (rule suffix_order.trans)
  have tail: "suffix (input (fst (
         let s6 = skip_to_star s5 in
         if cur s6 \<noteq> CHR ''*'' then (s6, out2)
         else case parse_smoothing (s6, out2) of Inl r \<Rightarrow> r | Inr (s7, out3) \<Rightarrow>
              let s8 = skip_to_star s7 in
              if cur s8 \<noteq> CHR ''*'' then (s8, out3)
              else parse_mtlid (s8, out3)))) ?n"
    if "suffix (input s5) ?n" for s5 out2
  proof -
    have l6: "suffix (input (skip_to_star s5)) ?n"
      using skip_to_star_suffix [of s5] that by (rule suffix_order.trans)
    show ?thesis
    proof (cases "parse_smoothing (skip_to_star s5, out2)")
      case (Inl r)
      with parse_smoothing_suffix [of "skip_to_star s5" out2 r] l6 show ?thesis
        by (auto simp: Let_def intro: suffix_order.trans)
    next
      case (Inr r)
      obtain s7 out3 where r: "r = (s7, out3)" by (cases r)
      have l7: "suffix (input s7) ?n"
        using parse_smoothing_suffix [of "skip_to_star s5" out2 r] Inr r l6
        by (auto intro: suffix_order.trans)
      have l8: "suffix (input (skip_to_star s7)) ?n"
        using skip_to_star_suffix [of s7] l7 by (rule suffix_order.trans)
      have l9: "suffix (input (fst (parse_mtlid (skip_to_star s7, out3)))) ?n"
        using parse_mtlid_suffix [of "skip_to_star s7" out3] l8 by (rule suffix_order.trans)
      show ?thesis using Inr r l6 l8 l9 by (auto simp: Let_def)
    qed
  qed
  have slots: "suffix (input (fst (
         case face_slot (?s4, ?out1) of Inl r \<Rightarrow> r | Inr a \<Rightarrow>
         case face_slot a of Inl r \<Rightarrow> r | Inr b \<Rightarrow>
         case face_slot b of Inl r \<Rightarrow> r | Inr (s5, out2) \<Rightarrow>
         let s6 = skip_to_star s5 in
         if cur s6 \<noteq> CHR ''*'' then (s6, out2)
         else case parse_smoothing (s6, out2) of Inl r \<Rightarrow> r | Inr (s7, out3) \<Rightarrow>
              let s8 = skip_to_star s7 in
              if cur s8 \<noteq> CHR ''*'' then (s8, out3)
              else parse_mtlid (s8, out3)))) ?n"
  proof (cases "face_slot (?s4, ?out1)")
    case (Inl r)
    with face_slots_suffix [of "(?s4, ?out1)" ?n] l4 show ?thesis by simp
  next
    case a: (Inr a)
    with face_slots_suffix [of "(?s4, ?out1)" ?n] l4 have la: "suffix (input (fst a)) ?n" by simp
    show ?thesis
    proof (cases "face_slot a")
      case (Inl r)
      with a face_slots_suffix [OF la] show ?thesis by simp
    next
      case b: (Inr b)
      with face_slots_suffix [OF la] have lb: "suffix (input (fst b)) ?n" by simp
      show ?thesis
      proof (cases "face_slot b")
        case (Inl r)
        with a b face_slots_suffix [OF lb] show ?thesis by simp
      next
        case c: (Inr c)
        obtain s5 out2 where c': "c = (s5, out2)" by (cases c)
        with c face_slots_suffix [OF lb] have "suffix (input s5) ?n" by simp
        from tail [OF this, of out2] a b c c' show ?thesis by simp
      qed
    qed
  qed
  show ?thesis
    using b1 b3 slots
    by (simp add: ParseLV4MeshFace_def 1 2 3 Let_def)
qed

lemma store_MESH_FACE_input:
  "input (fst (store_MESH_FACE n f (st, mesh))) = input st"
  by (simp add: store_MESH_FACE_def LogWarning_def)

lemma MESH_FACE_chain_consumes: "kw_consumes (MESH_FACE_chain iNumFaces)"
proof -
  have "suffix (input (fst (dispatch_state r))) (input st)"
    if "MESH_FACE_chain iNumFaces d (st, mesh) = Inr r" for d st mesh r
  proof -
    obtain matched s1 where 1: "TokenMatch ''MESH_FACE'' st = (matched, s1)"
      by (cases "TokenMatch ''MESH_FACE'' st")
    obtain s2 mFace where 2: "ParseLV4MeshFace (s1, new_Face) = (s2, mFace)"
      by (cases "ParseLV4MeshFace (s1, new_Face)")
    have l1: "suffix (input s1) (input st)"
      using TokenMatch_suffix [of "''MESH_FACE''" st] 1 by simp
    have l2: "suffix (input s2) (input st)"
      using ParseLV4MeshFace_suffix [of s1 new_Face] 2 l1 by (auto intro: suffix_order.trans)
    from that show ?thesis
      using l1 l2 store_MESH_FACE_input [of iNumFaces mFace s2 mesh]
      by (auto simp: MESH_FACE_chain_def 1 2 Let_def split: if_splits)
  qed
  then show ?thesis unfolding kw_consumes_def by auto
qed






lemma kw_consumes_no_growth: "kw_consumes kw \<Longrightarrow> kw_no_growth kw"
  unfolding kw_consumes_def kw_no_growth_def by (blast dest: suffix_length_le)


section \<open>Theorems: end of input in the section handlers\<close>

lemma HANDLE_SECTION_eof:
  "cur st = NUL \<Longrightarrow>
   AI_ASE_HANDLE_SECTION level msg iDepth st = Inl (LogError st (eof_message level msg))"
  by (simp add: AI_ASE_HANDLE_SECTION_def eof_message_def)

lemma HANDLE_TOP_LEVEL_SECTION_eof:
  "cur st = NUL \<Longrightarrow> \<exists>d. AI_ASE_HANDLE_TOP_LEVEL_SECTION star iDepth st = Return (d, st)"
  by (simp add: AI_ASE_HANDLE_TOP_LEVEL_SECTION_def)

lemma nested_section_eof:
  "cur st = NUL \<Longrightarrow>
   nested_section level msg kw (Suc fuel) iDepth (st, m)
     = Some (Inl (LogError st (eof_message level msg)))"
  by (simp add: HANDLE_SECTION_eof)

lemma nested_section_star_eof:
  "cur st = CHR ''*'' \<Longrightarrow> kw iDepth (advance st, m) = Inr (Fallthrough (st1, m1)) \<Longrightarrow>
   cur st1 = NUL \<Longrightarrow>
   nested_section level msg kw (Suc fuel) iDepth (st, m)
     = Some (Inl (LogError st1 (eof_message level msg)))"
  by (simp add: HANDLE_SECTION_eof)

lemma top_level_section_eof:
  "cur st = NUL \<Longrightarrow> top_level_section kw (Suc fuel) iDepth (st, m) = Some (Inr (st, m))"
  using HANDLE_TOP_LEVEL_SECTION_eof [of st False iDepth] by auto

lemma top_level_section_star_eof:
  "cur st = CHR ''*'' \<Longrightarrow> kw iDepth (advance st, m) = Inr (Fallthrough (st1, m1)) \<Longrightarrow>
   cur st1 = NUL \<Longrightarrow>
   top_level_section kw (Suc fuel) iDepth (st, m) = Some (Inr (st1, m1))"
  using HANDLE_TOP_LEVEL_SECTION_eof [of st1 True iDepth] by auto



lemma cur_not_NUL_advance:
  "cur st \<noteq> NUL \<Longrightarrow> length (input (advance (count_line c st))) < length (input st)"
  by (cases "input st") (auto simp: cur_def advance_def count_line_def)

lemma cur_star_advance: "cur st = CHR ''*'' \<Longrightarrow> length (input (advance st)) < length (input st)"
  by (cases "input st") (auto simp: cur_def advance_def)

lemma HANDLE_SECTION_Next:
  "AI_ASE_HANDLE_SECTION level msg iDepth st = Inr (Next (d, st2)) \<Longrightarrow>
   length (input st2) < length (input st)"
  using cur_not_NUL_advance [of st "cur st"]
  by (auto simp: AI_ASE_HANDLE_SECTION_def split: if_splits)

lemma HANDLE_TOP_LEVEL_SECTION_Next:
  "AI_ASE_HANDLE_TOP_LEVEL_SECTION star iDepth st = Next (d, st2) \<Longrightarrow>
   length (input st2) < length (input st)"
  using cur_not_NUL_advance [of st "cur st"]
  by (auto simp: AI_ASE_HANDLE_TOP_LEVEL_SECTION_def Let_def split: if_splits)

text \<open>
  Each round of a handler's loop consumes a character, so fuel beyond the length of the
  remaining input is enough for the loop to end.
\<close>

lemma nested_section_enough_fuel:
  assumes "kw_no_growth kw"
  shows "length (input (fst s)) < fuel \<Longrightarrow> nested_section level msg kw fuel iDepth s \<noteq> None"
proof (induction fuel arbitrary: iDepth s)
  case 0
  then show ?case by simp
next
  case (Suc fuel)
  obtain st m where s: "s = (st, m)" by (cases s)
  let ?k = "if cur st = CHR ''*'' then kw iDepth (advance st, m) else Inr (Fallthrough (st, m))"
  show ?case
  proof (cases ?k)
    case (Inl e)
    with s show ?thesis by simp
  next
    case (Inr disp)
    have lt: "length (input (fst (dispatch_state disp))) < length (input st)" if "cur st = CHR ''*''"
    proof -
      from that Inr have "kw iDepth (advance st, m) = Inr disp" by simp
      with assms have "length (input (fst (dispatch_state disp))) \<le> length (input (advance st))"
        unfolding kw_no_growth_def by fastforce
      with cur_star_advance [OF that] show ?thesis by simp
    qed
    have le: "length (input (fst (dispatch_state disp))) \<le> length (input st)"
    proof (cases "cur st = CHR ''*''")
      case True
      then show ?thesis using lt by simp
    next
      case False
      with Inr show ?thesis by auto
    qed
    show ?thesis
    proof (cases disp)
      case (Continue s')
      with Inr have "cur st = CHR ''*''" by (auto split: if_splits)
      with lt Continue Suc.prems s have "length (input (fst s')) < fuel" by simp
      from Suc.IH [OF this] Inr Continue s show ?thesis by simp
    next
      case (Returned s')
      with Inr s show ?thesis by simp
    next
      case (Fallthrough p)
      obtain st1 m1 where p: "p = (st1, m1)" by (cases p)
      show ?thesis
      proof (cases "AI_ASE_HANDLE_SECTION level msg iDepth st1")
        case (Inl e)
        with Inr Fallthrough p s show ?thesis by simp
      next
        case inr: (Inr fl)
        show ?thesis
        proof (cases fl)
          case (Return q)
          with Inr Fallthrough p inr s show ?thesis by (cases q) simp
        next
          case (Next q)
          obtain d st2 where q: "q = (d, st2)" by (cases q)
          from inr Next q have "length (input st2) < length (input st1)"
            using HANDLE_SECTION_Next by simp
          with le Fallthrough p Suc.prems s have "length (input (fst (st2, m1))) < fuel" by simp
          from Suc.IH [OF this] Inr Fallthrough p inr Next q s show ?thesis by simp
        qed
      qed
    qed
  qed
qed


lemma top_level_section_enough_fuel:
  assumes "kw_no_growth kw"
  shows "length (input (fst s)) < fuel \<Longrightarrow> top_level_section kw fuel iDepth s \<noteq> None"
proof (induction fuel arbitrary: iDepth s)
  case 0
  then show ?case by simp
next
  case (Suc fuel)
  obtain st m where s: "s = (st, m)" by (cases s)
  let ?k = "if cur st = CHR ''*'' then map_sum id (Pair True) (kw iDepth (advance st, m))
            else Inr (False, Fallthrough (st, m))"
  show ?case
  proof (cases ?k)
    case (Inl e)
    with s show ?thesis by simp
  next
    case (Inr sd)
    obtain star disp where sd: "sd = (star, disp)" by (cases sd)
    have lt: "length (input (fst (dispatch_state disp))) < length (input st)" if "cur st = CHR ''*''"
    proof -
      from that Inr sd have "kw iDepth (advance st, m) = Inr disp"
        by (cases "kw iDepth (advance st, m)") auto
      with assms have "length (input (fst (dispatch_state disp))) \<le> length (input (advance st))"
        unfolding kw_no_growth_def by fastforce
      with cur_star_advance [OF that] show ?thesis by simp
    qed
    have le: "length (input (fst (dispatch_state disp))) \<le> length (input st)"
    proof (cases "cur st = CHR ''*''")
      case True
      then show ?thesis using lt by simp
    next
      case False
      with Inr sd show ?thesis by auto
    qed
    show ?thesis
    proof (cases disp)
      case (Continue s')
      with Inr sd have "cur st = CHR ''*''" by (auto split: if_splits)
      with lt Continue Suc.prems s have "length (input (fst s')) < fuel" by simp
      from Suc.IH [OF this] Inr sd Continue s show ?thesis by simp
    next
      case (Returned s')
      with Inr sd s show ?thesis by simp
    next
      case (Fallthrough p)
      obtain st1 m1 where p: "p = (st1, m1)" by (cases p)
      show ?thesis
      proof (cases "AI_ASE_HANDLE_TOP_LEVEL_SECTION star iDepth st1")
        case (Return q)
        with Inr sd Fallthrough p s show ?thesis by (cases q) simp
      next
        case (Next q)
        obtain d st2 where q: "q = (d, st2)" by (cases q)
        from Next q have "length (input st2) < length (input st1)"
          using HANDLE_TOP_LEVEL_SECTION_Next by simp
        with le Fallthrough p Suc.prems s have "length (input (fst (st2, m1))) < fuel" by simp
        from Suc.IH [OF this] Inr sd Fallthrough p Next q s show ?thesis by simp
      qed
    qed
  qed
qed

lemma no_keywords_no_growth: "kw_no_growth no_keywords"
  by (simp add: kw_no_growth_def no_keywords_def)


















section \<open>Theorems: line counting\<close>

text \<open>
  The section macros and \<open>SkipToNextToken\<close> count a carriage return and line feed pair
  once, whatever \<open>bLastWasEndLine\<close> holds before it.
\<close>

lemma count_line_CRLF:
  "iLineNumber (count_line LF (advance (count_line CR st))) = iLineNumber st + 1"
  by (simp add: count_line_def advance_def IsLineEnd_def)

lemma HANDLE_SECTION_CRLF:
  assumes "input st = CR # LF # rest"
  shows "\<exists>st1 st2. AI_ASE_HANDLE_SECTION level msg iDepth st = Inr (Next (iDepth, st1))
           \<and> AI_ASE_HANDLE_SECTION level msg iDepth st1 = Inr (Next (iDepth, st2))
           \<and> input st2 = rest \<and> iLineNumber st2 = iLineNumber st + 1"
  using assms
  by (simp add: AI_ASE_HANDLE_SECTION_def cur_def advance_def count_line_def IsLineEnd_def)

lemma HANDLE_TOP_LEVEL_SECTION_CRLF:
  assumes "input st = CR # LF # rest"
  shows "\<exists>st1 st2. AI_ASE_HANDLE_TOP_LEVEL_SECTION False iDepth st = Next (iDepth, st1)
           \<and> AI_ASE_HANDLE_TOP_LEVEL_SECTION False iDepth st1 = Next (iDepth, st2)
           \<and> input st2 = rest \<and> iLineNumber st2 = iLineNumber st + 1"
  using assms
  by (simp add: AI_ASE_HANDLE_TOP_LEVEL_SECTION_def cur_def advance_def count_line_def IsLineEnd_def)

lemma SkipToNextToken_CRLF:
  assumes "input st = CR # LF # rest"
  shows "SkipToNextToken st = SkipToNextToken (st\<lparr> input := rest, iLineNumber := iLineNumber st + 1 \<rparr>)"
proof -
  have 1: "SkipToNextToken st = SkipToNextToken ((count_line CR st)\<lparr> input := LF # rest \<rparr>)"
    using assms by (subst SkipToNextToken.simps) simp
  have 2: "SkipToNextToken ((count_line CR st)\<lparr> input := LF # rest \<rparr>)
         = SkipToNextToken ((count_line LF ((count_line CR st)\<lparr> input := LF # rest \<rparr>))\<lparr> input := rest \<rparr>)"
    by (subst SkipToNextToken.simps) simp
  have 3: "(count_line LF ((count_line CR st)\<lparr> input := LF # rest \<rparr>))\<lparr> input := rest \<rparr>
         = st\<lparr> input := rest, iLineNumber := iLineNumber st + 1 \<rparr>"
    by (cases "bLastWasEndLine st") (simp_all add: count_line_def IsLineEnd_def)
  show ?thesis using 1 2 3 by simp
qed

text \<open>
  C6 (the code at the failing input). The claim: a carriage return and line feed pair
  consumed by skip-section increments the line counter once. The code: \<open>SkipSection\<close>
  increments \<open>iLineNumber\<close> on every line-end character and does not consult
  \<open>bLastWasEndLine\<close>, so the skipped section \<open>{ CR LF }\<close> moves the counter from 0
  to 2.
\<close>

theorem SkipSection_counts_CRLF_twice:
  "SkipSection (parser_at (''{'' @ [CR, LF] @ ''}'')) =
     (True, \<lparr> input = [], iLineNumber = 2, bLastWasEndLine = False, warnings = [] \<rparr>)"
  by (simp add: SkipSection_def SkipSection_loop.simps SkipToNextToken.simps scan_eval)

text \<open>In general, each pair inside a skipped section counts two lines.\<close>

lemma SkipSection_loop_CRLF:
  assumes "input st = CR # LF # rest"
  shows "SkipSection_loop iCnt st
         = SkipSection_loop iCnt (st\<lparr> input := rest, iLineNumber := iLineNumber st + 2 \<rparr>)"
proof -
  have 1: "SkipSection_loop iCnt st
         = SkipSection_loop iCnt (st\<lparr> input := LF # rest, iLineNumber := iLineNumber st + 1 \<rparr>)"
    using assms by (subst SkipSection_loop.simps, cases st) (simp add: cur_def advance_def IsLineEnd_def)
  have 2: "SkipSection_loop iCnt (st\<lparr> input := LF # rest, iLineNumber := iLineNumber st + 1 \<rparr>)
         = SkipSection_loop iCnt (st\<lparr> input := rest, iLineNumber := iLineNumber st + 2 \<rparr>)"
    by (subst SkipSection_loop.simps, cases st)
       (simp add: cur_def advance_def IsLineEnd_def add.commute)
  show ?thesis using 1 2 by simp
qed

section \<open>Theorems: smoothing groups\<close>

text \<open>
  The second \<open>strtoul10\<close> starts where the first one stopped, at a character that is
  not a digit: it reads 0. So a value below 32 never sets another bit than bit 0, and a
  value that starts with the digit 9 is neither read nor warned about.
\<close>

lemma strtoul10_again: "fst (strtoul10 (snd (strtoul10 st))) = 0"
proof -
  have "takeWhile is_digit (dropWhile is_digit xs) = []" for xs
    by (induction xs) auto
  then show ?thesis by (simp add: strtoul10_def)
qed

lemma smoothing_value_mask:
  "iSmoothGroup (snd (smoothing_value (st, out))) = iSmoothGroup out
   \<or> iSmoothGroup (snd (smoothing_value (st, out))) = iSmoothGroup out OR 1"
  using strtoul10_again [of st]
  by (auto simp: smoothing_value_def split: prod.splits)

lemma smoothing_loop_mask:
  "iSmoothGroup (snd (smoothing_loop s)) = iSmoothGroup (snd s)
   \<or> iSmoothGroup (snd (smoothing_loop s)) = iSmoothGroup (snd s) OR 1"
proof (induction s rule: smoothing_loop.induct)
  case (1 s)
  obtain st out where s: "s = (st, out)" by (cases s)
  obtain st1 out1 where v: "smoothing_value s = (st1, out1)" by (cases "smoothing_value s")
  have m: "iSmoothGroup out1 = iSmoothGroup out \<or> iSmoothGroup out1 = iSmoothGroup out OR 1"
    using smoothing_value_mask [of st out] s v by simp
  show ?case
  proof (cases "cur (snd (SkipSpaces st1)) \<noteq> CHR '',''")
    case True
    then show ?thesis
      using m v s by (subst (1 2) smoothing_loop.simps) (simp add: Let_def)
  next
    case False
    from "1.IH" [OF v [symmetric] refl refl False]
    have "iSmoothGroup (snd (smoothing_loop (snd (SkipSpaces (advance (snd (SkipSpaces st1)))), out1)))
            = iSmoothGroup out1
        \<or> iSmoothGroup (snd (smoothing_loop (snd (SkipSpaces (advance (snd (SkipSpaces st1)))), out1)))
            = iSmoothGroup out1 OR 1"
      by simp
    moreover have "smoothing_loop s =
          smoothing_loop (snd (SkipSpaces (advance (snd (SkipSpaces st1)))), out1)"
      using False v by (subst smoothing_loop.simps) (simp add: Let_def)
    ultimately show ?thesis
      using m s by (auto simp: or.assoc)
  qed
qed

lemma smoothing_value_nine:
  "cur st = CHR ''9'' \<Longrightarrow> smoothing_value (st, out) = (st, out)"
  by (simp add: smoothing_value_def)

text \<open>
  C7 (the code at the failing input). The claim: the value 5 in the smoothing-group list
  sets exactly bit 5 of the mask. The code: on the face record
  \<open>0: A: 0 B: 1 C: 2 AB: 1 BC: 1 CA: 0 *MESH_SMOOTHING 5 *MESH_MTLID 0\<close> the mask is
  1, bit 0: the shift amount is read by a second \<open>strtoul10\<close>, after the digits.
\<close>

theorem smoothing_group_5_sets_bit_0:
  "ParseLV4MeshFace (parser_at face_line_smoothing_5, new_Face) =
     (\<lparr> input = [CR, LF], iLineNumber = 0, bLastWasEndLine = False, warnings = [] \<rparr>,
      \<lparr> iFace = 0, mIndices = [0, 1, 2], iSmoothGroup = 1, iMaterial = 0 \<rparr>)"
  by (simp add: ParseLV4MeshFace_def face_slot_def parse_smoothing_def parse_mtlid_def
      smoothing_loop.simps smoothing_value_def scan_eval new_Face_def Let_def
      face_line_smoothing_5_def)

section \<open>Theorems: the list blocks keep the declared size\<close>

text \<open>
  A property of the data that the keyword chain preserves holds of the result of the
  handler's loop.
\<close>

lemma nested_section_invariant:
  assumes kw: "\<And>d st m r. P m \<Longrightarrow> kw d (st, m) = Inr r \<Longrightarrow> P (snd (dispatch_state r))"
  shows "P (snd s) \<Longrightarrow> nested_section level msg kw fuel iDepth s = Some (Inr r) \<Longrightarrow> P (snd r)"
proof (induction fuel arbitrary: iDepth s)
  case 0
  then show ?case by (cases s) simp
next
  case (Suc fuel)
  obtain st m where s: "s = (st, m)" by (cases s)
  with Suc.prems have Pm: "P m" by simp
  let ?k = "if cur st = CHR ''*'' then kw iDepth (advance st, m) else Inr (Fallthrough (st, m))"
  show ?case
  proof (cases ?k)
    case (Inl e)
    with Suc.prems s show ?thesis by simp
  next
    case (Inr disp)
    have Pd: "P (snd (dispatch_state disp))"
    proof (cases "cur st = CHR ''*''")
      case True
      with Inr have "kw iDepth (advance st, m) = Inr disp" by simp
      from kw [OF Pm this] show ?thesis .
    next
      case False
      with Inr Pm show ?thesis by auto
    qed
    show ?thesis
    proof (cases disp)
      case (Continue s')
      with Inr Suc.prems s have "nested_section level msg kw fuel iDepth s' = Some (Inr r)" by simp
      moreover from Pd Continue have "P (snd s')" by simp
      ultimately show ?thesis using Suc.IH by blast
    next
      case (Returned s')
      with Inr Suc.prems s Pd show ?thesis by auto
    next
      case (Fallthrough p)
      obtain st1 m1 where p: "p = (st1, m1)" by (cases p)
      with Pd Fallthrough have P1: "P m1" by simp
      show ?thesis
      proof (cases "AI_ASE_HANDLE_SECTION level msg iDepth st1")
        case (Inl e)
        with Inr Fallthrough p Suc.prems s show ?thesis by simp
      next
        case inr: (Inr fl)
        show ?thesis
        proof (cases fl)
          case (Return q)
          with Inr Fallthrough p inr Suc.prems s P1 show ?thesis by (cases q) auto
        next
          case (Next q)
          obtain d st2 where q: "q = (d, st2)" by (cases q)
          from Inr Fallthrough p inr Next q Suc.prems s
          have "nested_section level msg kw fuel d (st2, m1) = Some (Inr r)" by simp
          moreover have "P (snd (st2, m1))" using P1 by simp
          ultimately show ?thesis using Suc.IH by blast
        qed
      qed
    qed
  qed
qed

lemma resize_length: "length (resize n d xs) = n"
  by (simp add: resize_def)

lemma store_MESH_FACE_length:
  "length (mFaces_ASE (snd (store_MESH_FACE n f (st, mesh)))) = length (mFaces_ASE mesh)"
  by (simp add: store_MESH_FACE_def)

lemma store_MESH_VERTEX_length:
  "length (mPositions (snd (store_MESH_VERTEX n i v (st, mesh)))) = length (mPositions mesh)"
  by (simp add: store_MESH_VERTEX_def)

lemma store_MESH_VERTCOL_length:
  "length (mVertexColors (snd (store_MESH_VERTCOL n i v (st, mesh)))) = length (mVertexColors mesh)"
  by (simp add: store_MESH_VERTCOL_def)

lemma store_MESH_TVERT_length:
  "c < length (amTexCoords mesh) \<Longrightarrow>
   c < length (amTexCoords (snd (store_MESH_TVERT n c i v (st, mesh))))
   \<and> length (amTexCoords (snd (store_MESH_TVERT n c i v (st, mesh))) ! c)
       = length (amTexCoords mesh ! c)"
  by (simp add: store_MESH_TVERT_def Let_def)

text \<open>
  Each list block leaves its array with the declared count of slots: the writes of the
  block's declarations happen on an array of exactly that length.
\<close>

lemma ParseLV3MeshFaceListBlock_length:
  assumes "ParseLV3MeshFaceListBlock iNumFaces fuel (st, mesh) = Some (Inr (st', mesh'))"
  shows "length (mFaces_ASE mesh') = iNumFaces"
proof -
  let ?P = "\<lambda>m. length (mFaces_ASE m) = iNumFaces"
  have kw: "?P (snd (dispatch_state r))"
    if "?P m" "MESH_FACE_chain iNumFaces d (s, m) = Inr r" for d s m r
    using that store_MESH_FACE_length
    by (auto simp: MESH_FACE_chain_def Let_def split: prod.splits if_splits)
  from assms have "nested_section ''3'' ''*MESH_FACE_LIST'' (MESH_FACE_chain iNumFaces) fuel 0
      (st, mesh\<lparr> mFaces_ASE := resize iNumFaces new_Face (mFaces_ASE mesh) \<rparr>) = Some (Inr (st', mesh'))"
    by (simp add: ParseLV3MeshFaceListBlock_def run_handler_def handler_loop_def)
  from nested_section_invariant [where P = ?P, OF kw _ this] show ?thesis
    by (simp add: resize_length)
qed

lemma ParseLV3MeshVertexListBlock_length:
  assumes "ParseLV3MeshVertexListBlock rd iNumVertices fuel (st, mesh) = Some (Inr (st', mesh'))"
  shows "length (mPositions mesh') = iNumVertices"
proof -
  let ?P = "\<lambda>m. length (mPositions m) = iNumVertices"
  have kw: "?P (snd (dispatch_state r))"
    if "?P m" "MESH_VERTEX_chain rd iNumVertices d (s, m) = Inr r" for d s m r
    using that store_MESH_VERTEX_length
    by (auto simp: MESH_VERTEX_chain_def Let_def ebind_def split: prod.splits if_splits sum.splits)
  from assms have "nested_section ''3'' ''*MESH_VERTEX_LIST'' (MESH_VERTEX_chain rd iNumVertices) fuel 0
      (st, mesh\<lparr> mPositions := resize iNumVertices (0, 0, 0) (mPositions mesh) \<rparr>) = Some (Inr (st', mesh'))"
    by (simp add: ParseLV3MeshVertexListBlock_def run_handler_def handler_loop_def)
  from nested_section_invariant [where P = ?P, OF kw _ this] show ?thesis
    by (simp add: resize_length)
qed

lemma ParseLV3MeshCListBlock_length:
  assumes "ParseLV3MeshCListBlock rd iNumVertices fuel (st, mesh) = Some (Inr (st', mesh'))"
  shows "length (mVertexColors mesh') = iNumVertices"
proof -
  let ?P = "\<lambda>m. length (mVertexColors m) = iNumVertices"
  have kw: "?P (snd (dispatch_state r))"
    if "?P m" "MESH_VERTCOL_chain rd iNumVertices d (s, m) = Inr r" for d s m r
    using that store_MESH_VERTCOL_length
    by (auto simp: MESH_VERTCOL_chain_def Let_def ebind_def split: prod.splits if_splits sum.splits)
  from assms have "nested_section ''3'' ''*MESH_CVERTEX_LIST'' (MESH_VERTCOL_chain rd iNumVertices) fuel 0
      (st, mesh\<lparr> mVertexColors := resize iNumVertices (0, 0, 0, 0) (mVertexColors mesh) \<rparr>) = Some (Inr (st', mesh'))"
    by (simp add: ParseLV3MeshCListBlock_def run_handler_def handler_loop_def)
  from nested_section_invariant [where P = ?P, OF kw _ this] show ?thesis
    by (simp add: resize_length)
qed

lemma ParseLV3MeshTListBlock_length:
  assumes "ParseLV3MeshTListBlock rd iNumVertices c fuel (st, mesh) = Some (Inr (st', mesh'))"
    and "c < length (amTexCoords mesh)"
  shows "c < length (amTexCoords mesh') \<and> length (amTexCoords mesh' ! c) = iNumVertices"
proof -
  let ?P = "\<lambda>m. c < length (amTexCoords m) \<and> length (amTexCoords m ! c) = iNumVertices"
  have kw: "?P (snd (dispatch_state r))"
    if "?P m" "MESH_TVERT_chain rd iNumVertices c d (s, m) = Inr r" for d s m r
    using that store_MESH_TVERT_length
    by (auto simp: MESH_TVERT_chain_def Let_def ebind_def split: prod.splits if_splits sum.splits)
  from assms have "nested_section ''3'' ''*MESH_TVERT_LIST'' (MESH_TVERT_chain rd iNumVertices c) fuel 0
      (st, mesh\<lparr> amTexCoords :=
              (amTexCoords mesh)[c := resize iNumVertices (0, 0, 0) (amTexCoords mesh ! c)] \<rparr>) = Some (Inr (st', mesh'))"
    by (simp add: ParseLV3MeshTListBlock_def run_handler_def handler_loop_def)
  from nested_section_invariant [where P = ?P, OF kw _ this] assms(2) show ?thesis
    by (simp add: resize_length)
qed

text \<open>
  The keyword chain of the face list block never moves the cursor backwards, so the
  block ends on fuel beyond the length of the input.
\<close>

lemma MESH_FACE_chain_no_growth: "kw_no_growth (MESH_FACE_chain iNumFaces)"
  using MESH_FACE_chain_consumes by (rule kw_consumes_no_growth)

lemma ParseLV3MeshFaceListBlock_returns:
  "length (input st) < fuel \<Longrightarrow> ParseLV3MeshFaceListBlock iNumFaces fuel (st, mesh) \<noteq> None"
  using nested_section_enough_fuel [OF MESH_FACE_chain_no_growth, of _ fuel]
  by (simp add: ParseLV3MeshFaceListBlock_def run_handler_def handler_loop_def)

text \<open>
  The face list block on the two buffers, one face declared: the buffer that ends inside
  the section aborts with the fatal error of the block (and no mesh); on the complete
  buffer face 0 is stored, the declaration of face 3 is dropped with one warning, and the
  four carriage return and line feed pairs count four lines.
\<close>

lemma face_list_unterminated:
  "ParseLV3MeshFaceListBlock 1 (Suc (length open_face_list)) (parser_at open_face_list, empty_mesh)
   = Some (Inl (DeadlyImportError
       ''Line 1: Encountered unexpected EOL while parsing a *MESH_FACE_LIST chunk (Level 3)''))"
  by (simp add: ParseLV3MeshFaceListBlock_def MESH_FACE_chain_def store_MESH_FACE_def resize_def
      open_face_list_def empty_mesh_def handler_eval face_eval scan_eval digits10.simps)

lemma face_list_out_of_bounds:
  "ParseLV3MeshFaceListBlock 1 (Suc (length closed_face_list)) (parser_at closed_face_list, empty_mesh)
   = Some (Inr (\<lparr> input = [], iLineNumber = 4, bLastWasEndLine = False,
                   warnings = [''Line 2: Face has an invalid index. It will be ignored''] \<rparr>,
                empty_mesh\<lparr> mFaces_ASE :=
                  [\<lparr> iFace = 0, mIndices = [0, 1, 2], iSmoothGroup = 0, iMaterial = 3452816845 \<rparr>] \<rparr>))"
  by (simp add: ParseLV3MeshFaceListBlock_def MESH_FACE_chain_def store_MESH_FACE_def resize_def
      closed_face_list_def empty_mesh_def handler_eval face_eval scan_eval digits10.simps)

section \<open>Theorems: index-addressed declarations\<close>

lemma only_slot_changed_update:
  "i < length xs \<Longrightarrow> only_slot_changed xs (xs[i := v]) i v"
  by (simp add: only_slot_changed_def)

lemma one_more_warning_LogWarning: "one_more_warning st (LogWarning st msg)"
  by (simp add: one_more_warning_def LogWarning_def)

text \<open>
  C3 as stated fails for bone vertices: on an array of two bone vertices, the
  declaration with index 5 and the pair (0, 1) is not dropped; the pair lands in the last
  slot.
\<close>

theorem bone_vertex_out_of_bounds_counterexample:
  "store_MESH_BONE_VERTEX 5 [(0, 1)] (parser_at [], two_bone_vertices) =
     Inr ((parser_at [])\<lparr> warnings := [''Line 0: '' @ warn_bone_vertex] \<rparr>,
          two_bone_vertices\<lparr> mBoneVertices := [[], [(0, 1)]] \<rparr>)
   \<and> mBoneVertices two_bone_vertices = [[], []]"
  by (simp add: store_MESH_BONE_VERTEX_def two_bone_vertices_def empty_mesh_def parser_at_def
      LogWarning_def line_message_def u32_def digits10.simps Let_def)

text \<open>
  C3, amended. For a declaration parsed into a pre-sized array of \<open>n\<close> slots: for
  vertex positions, faces, texture vertices and vertex colours, an index inside the
  array changes that slot only (and logs nothing), an index outside is dropped with
  exactly one warning and leaves the array unchanged, its length included. For bone
  vertices (a non-empty array sized by an \<open>unsigned int\<close>), the pairs read are appended
  to the slot of the index, other slots unchanged; an index outside the array logs
  exactly one warning and is replaced by the last valid index \<open>n - 1\<close>, whose slot
  receives the pairs. The array never grows.
\<close>

theorem indexed_stores:
  "(length (mPositions mesh) = n \<longrightarrow>
      (let (st', mesh') = store_MESH_VERTEX n i v (st, mesh)
       in if i < n
          then mesh' = mesh\<lparr> mPositions := (mPositions mesh)[i := v] \<rparr>
             \<and> only_slot_changed (mPositions mesh) (mPositions mesh') i v \<and> st' = st
          else mesh' = mesh \<and> one_more_warning st st'))
 \<and> (length (mFaces_ASE mesh) = n \<longrightarrow>
      (let (st', mesh') = store_MESH_FACE n f (st, mesh)
       in if iFace f < n
          then mesh' = mesh\<lparr> mFaces_ASE := (mFaces_ASE mesh)[iFace f := f] \<rparr>
             \<and> only_slot_changed (mFaces_ASE mesh) (mFaces_ASE mesh') (iFace f) f \<and> st' = st
          else mesh' = mesh \<and> one_more_warning st st'))
 \<and> (c < length (amTexCoords mesh) \<and> length (amTexCoords mesh ! c) = n \<longrightarrow>
      (let (st', mesh') = store_MESH_TVERT n c i v (st, mesh)
       in length (amTexCoords mesh') = length (amTexCoords mesh)
        \<and> (\<forall>c' < length (amTexCoords mesh). c' \<noteq> c \<longrightarrow> amTexCoords mesh' ! c' = amTexCoords mesh ! c')
        \<and> (if i < n
            then only_slot_changed (amTexCoords mesh ! c) (amTexCoords mesh' ! c) i v \<and> st' = st
            else amTexCoords mesh' = amTexCoords mesh \<and> one_more_warning st st')))
 \<and> (length (mVertexColors mesh) = n \<longrightarrow>
      (let (st', mesh') = store_MESH_VERTCOL n i col (st, mesh)
       in if i < n
          then mesh' = mesh\<lparr> mVertexColors := (mVertexColors mesh)[i := col] \<rparr>
             \<and> only_slot_changed (mVertexColors mesh) (mVertexColors mesh') i col \<and> st' = st
          else mesh' = mesh \<and> one_more_warning st st'))
 \<and> (length (mBoneVertices mesh) = n \<and> 0 < n \<and> n < 2 ^ 32 \<longrightarrow>
      (\<exists>st' mesh'. store_MESH_BONE_VERTEX i pairs (st, mesh) = Inr (st', mesh')
         \<and> (let k = (if i < n then i else n - 1)
            in only_slot_changed (mBoneVertices mesh) (mBoneVertices mesh') k
                 (mBoneVertices mesh ! k @ filter (\<lambda>pairOut. fst pairOut \<noteq> - 1) pairs))
         \<and> (if i < n then st' = st else st' = LogWarning st warn_bone_vertex)))"
proof (intro conjI impI)
  assume "length (mPositions mesh) = n"
  then show "let (st', mesh') = store_MESH_VERTEX n i v (st, mesh)
       in if i < n
          then mesh' = mesh\<lparr> mPositions := (mPositions mesh)[i := v] \<rparr>
             \<and> only_slot_changed (mPositions mesh) (mPositions mesh') i v \<and> st' = st
          else mesh' = mesh \<and> one_more_warning st st'"
    by (simp add: store_MESH_VERTEX_def only_slot_changed_update one_more_warning_LogWarning)
next
  assume "length (mFaces_ASE mesh) = n"
  then show "let (st', mesh') = store_MESH_FACE n f (st, mesh)
       in if iFace f < n
          then mesh' = mesh\<lparr> mFaces_ASE := (mFaces_ASE mesh)[iFace f := f] \<rparr>
             \<and> only_slot_changed (mFaces_ASE mesh) (mFaces_ASE mesh') (iFace f) f \<and> st' = st
          else mesh' = mesh \<and> one_more_warning st st'"
    by (simp add: store_MESH_FACE_def only_slot_changed_update one_more_warning_LogWarning)
next
  assume "c < length (amTexCoords mesh) \<and> length (amTexCoords mesh ! c) = n"
  then show "let (st', mesh') = store_MESH_TVERT n c i v (st, mesh)
       in length (amTexCoords mesh') = length (amTexCoords mesh)
        \<and> (\<forall>c' < length (amTexCoords mesh). c' \<noteq> c \<longrightarrow> amTexCoords mesh' ! c' = amTexCoords mesh ! c')
        \<and> (if i < n
            then only_slot_changed (amTexCoords mesh ! c) (amTexCoords mesh' ! c) i v \<and> st' = st
            else amTexCoords mesh' = amTexCoords mesh \<and> one_more_warning st st')"
    by (auto simp: store_MESH_TVERT_def only_slot_changed_update one_more_warning_LogWarning Let_def)
next
  assume "length (mVertexColors mesh) = n"
  then show "let (st', mesh') = store_MESH_VERTCOL n i col (st, mesh)
       in if i < n
          then mesh' = mesh\<lparr> mVertexColors := (mVertexColors mesh)[i := col] \<rparr>
             \<and> only_slot_changed (mVertexColors mesh) (mVertexColors mesh') i col \<and> st' = st
          else mesh' = mesh \<and> one_more_warning st st'"
    by (simp add: store_MESH_VERTCOL_def only_slot_changed_update one_more_warning_LogWarning)
next
  assume a: "length (mBoneVertices mesh) = n \<and> 0 < n \<and> n < 2 ^ 32"
  let ?pushed = "filter (\<lambda>pairOut. fst pairOut \<noteq> - 1) pairs"
  let ?xs = "mBoneVertices mesh"
  let ?k = "if i < n then i else n - 1"
  let ?st' = "if i < n then st else LogWarning st warn_bone_vertex"
  have u: "u32 (int n - 1) = n - 1"
  proof -
    have "n - 1 < 2 ^ 32" using a by linarith
    then have "u32 (int (n - 1)) = n - 1" by (rule u32_nat)
    moreover have "int (n - 1) = int n - 1" using a by (simp add: of_nat_diff)
    ultimately show ?thesis by (simp only:)
  qed
  have k: "?k < n" using a by auto
  have run: "store_MESH_BONE_VERTEX i pairs (st, mesh) =
               Inr (?st', if ?pushed = [] then mesh
                          else mesh\<lparr> mBoneVertices := ?xs[?k := ?xs ! ?k @ ?pushed] \<rparr>)"
  proof (cases "i < n")
    case True
    with a show ?thesis by (simp add: store_MESH_BONE_VERTEX_def Let_def)
  next
    case False
    with a u show ?thesis by (simp add: store_MESH_BONE_VERTEX_def Let_def)
  qed
  have slot: "only_slot_changed ?xs
                (mBoneVertices (if ?pushed = [] then mesh
                                else mesh\<lparr> mBoneVertices := ?xs[?k := ?xs ! ?k @ ?pushed] \<rparr>))
                ?k (?xs ! ?k @ ?pushed)"
  proof (cases "?pushed = []")
    case True
    then show ?thesis by (simp add: only_slot_changed_def)
  next
    case False
    then show ?thesis using k a only_slot_changed_update [of ?k ?xs "?xs ! ?k @ ?pushed"] by simp
  qed
  show "\<exists>st' mesh'. store_MESH_BONE_VERTEX i pairs (st, mesh) = Inr (st', mesh')
         \<and> (let k = (if i < n then i else n - 1)
            in only_slot_changed (mBoneVertices mesh) (mBoneVertices mesh') k
                 (mBoneVertices mesh ! k @ filter (\<lambda>pairOut. fst pairOut \<noteq> - 1) pairs))
         \<and> (if i < n then st' = st else st' = LogWarning st warn_bone_vertex)"
    unfolding run Let_def using slot by (intro exI conjI) (rule refl, assumption, simp)
qed


text \<open>An array of two: index 7 is outside, index 1 inside.\<close>

theorem indexed_stores_witness:
  "length (mPositions mesh2) = 2
   \<and> (length (mBoneVertices mesh2) = 2 \<and> (0::nat) < 2 \<and> (2::nat) < 2 ^ 32)
   \<and> snd (store_MESH_VERTEX 2 7 (1, 2, 3) (parser_at [], mesh2)) = mesh2
   \<and> snd (store_MESH_VERTEX 2 1 (1, 2, 3) (parser_at [], mesh2))
       = mesh2\<lparr> mPositions := [(0, 0, 0), (1, 2, 3)] \<rparr>
   \<and> (\<exists>st' mesh'. store_MESH_BONE_VERTEX 7 [(0, 1)] (parser_at [], mesh2) = Inr (st', mesh')
         \<and> mBoneVertices mesh' ! 1 = [(0, 1)] \<and> mBoneVertices mesh' ! 0 = [])"
proof -
  have h1: "length (mPositions mesh2) = 2" by (simp add: mesh2_def)
  have h2: "length (mFaces_ASE mesh2) = 2" by (simp add: mesh2_def)
  have h3: "0 < length (amTexCoords mesh2) \<and> length (amTexCoords mesh2 ! 0) = 2"
    by (simp add: mesh2_def)
  have h4: "length (mVertexColors mesh2) = 2" by (simp add: mesh2_def)
  have h5: "length (mBoneVertices mesh2) = 2 \<and> (0::nat) < 2 \<and> (2::nat) < 2 ^ 32"
    by (simp add: mesh2_def)
  note out = indexed_stores [of mesh2 2 7 "(1, 2, 3)" "parser_at []" new_Face 0 "(0, 0, 0, 0)"
      "[(0, 1)]"]
  note inb = indexed_stores [of mesh2 2 1 "(1, 2, 3)" "parser_at []" new_Face 0 "(0, 0, 0, 0)"
      "[(0, 1)]"]
  from out h1 have a: "snd (store_MESH_VERTEX 2 7 (1, 2, 3) (parser_at [], mesh2)) = mesh2"
    by (simp add: split_beta)
  from inb h1 have b: "snd (store_MESH_VERTEX 2 1 (1, 2, 3) (parser_at [], mesh2))
       = mesh2\<lparr> mPositions := [(0, 0, 0), (1, 2, 3)] \<rparr>"
    by (simp add: split_beta mesh2_def)
  from out h5 obtain st' mesh' where
    r: "store_MESH_BONE_VERTEX 7 [(0, 1)] (parser_at [], mesh2) = Inr (st', mesh')"
    and s: "only_slot_changed (mBoneVertices mesh2) (mBoneVertices mesh') 1
              (mBoneVertices mesh2 ! 1 @ filter (\<lambda>pairOut. fst pairOut \<noteq> - 1) [(0, 1)])"
    by (auto simp: Let_def)
  from s have c: "mBoneVertices mesh' ! 1 = [(0, 1)] \<and> mBoneVertices mesh' ! 0 = []"
    by (simp add: only_slot_changed_def mesh2_def)
  show ?thesis using h1 h5 a b r c by blast
qed

end
